theory Spec2Isabelle
  imports Complex_Main
begin

section \<open>Admission controller: the fixed-window \<open>RateLimiter\<close>\<close>

text \<open>
  The class \<open>RateLimiter\<close> keeps a \<open>Map<string, RateLimitEntry>\<close> together with the two
  constructor parameters.  Counters and timestamps are JavaScript numbers that only ever
  hold integers here, so they are modelled as \<open>int\<close>.  \<open>Date.now()\<close> is read once at the
  start of every method; the model takes that reading as the argument \<open>now\<close>.
\<close>

record RateLimitEntry =
  count :: int
  resetTime :: int

record RateLimiter =
  limits :: "string \<rightharpoonup> RateLimitEntry"
  maxRequests :: int
  windowMs :: int

text \<open>The object returned by \<open>isAllowed\<close> (its third field is called \<open>resetTime\<close> in the source).\<close>

record RateLimitResult =
  allowed :: bool
  remaining :: int
  resultResetTime :: int

definition newRateLimiter :: "int \<Rightarrow> int \<Rightarrow> RateLimiter" where
  "newRateLimiter m w = \<lparr>limits = Map.empty, maxRequests = m, windowMs = w\<rparr>"

definition isAllowed :: "int \<Rightarrow> string \<Rightarrow> RateLimiter \<Rightarrow> RateLimitResult \<times> RateLimiter" where
  "isAllowed now identifier rl =
     (let restart =
        (\<lparr>allowed = True, remaining = maxRequests rl - 1, resultResetTime = now + windowMs rl\<rparr>,
         rl\<lparr>limits := (limits rl)(identifier \<mapsto> \<lparr>count = 1, resetTime = now + windowMs rl\<rparr>)\<rparr>)
      in case limits rl identifier of
           None \<Rightarrow> restart
         | Some entry \<Rightarrow>
             if now > resetTime entry then restart
             else if count entry \<ge> maxRequests rl then
               (\<lparr>allowed = False, remaining = 0, resultResetTime = resetTime entry\<rparr>, rl)
             else
               (let entry' = entry\<lparr>count := count entry + 1\<rparr>
                in (\<lparr>allowed = True, remaining = maxRequests rl - count entry',
                     resultResetTime = resetTime entry'\<rparr>,
                    rl\<lparr>limits := (limits rl)(identifier \<mapsto> entry')\<rparr>)))"

definition cleanup :: "int \<Rightarrow> RateLimiter \<Rightarrow> RateLimiter" where
  "cleanup now rl =
     rl\<lparr>limits := (\<lambda>key. case limits rl key of
                            None \<Rightarrow> None
                          | Some entry \<Rightarrow> if now > resetTime entry then None else Some entry)\<rparr>"

definition getCurrentLimit :: "int \<Rightarrow> string \<Rightarrow> RateLimiter \<Rightarrow> RateLimitEntry option \<times> RateLimiter" where
  "getCurrentLimit now identifier rl =
     (case limits rl identifier of
        None \<Rightarrow> (None, rl)
      | Some entry \<Rightarrow>
          if now > resetTime entry then (None, rl\<lparr>limits := (limits rl)(identifier := None)\<rparr>)
          else (Some entry, rl))"

definition resetLimits :: "RateLimiter \<Rightarrow> RateLimiter" where
  "resetLimits rl = rl\<lparr>limits := Map.empty\<rparr>"

text \<open>A run of calls of \<open>isAllowed\<close> for one identity, one call per clock reading.\<close>

fun checks :: "string \<Rightarrow> int list \<Rightarrow> RateLimiter \<Rightarrow> RateLimitResult list \<times> RateLimiter" where
  "checks identifier [] rl = ([], rl)"
| "checks identifier (now # nows) rl =
     (let (r, rl') = isAllowed now identifier rl;
          (rs, rl'') = checks identifier nows rl'
      in (r # rs, rl''))"

text \<open>The public methods of the class as operations, and a run of them in any order.\<close>

datatype limiterOp =
    IsAllowed int string
  | Cleanup int
  | GetCurrentLimit int string
  | ResetLimits

fun applyOp :: "limiterOp \<Rightarrow> RateLimiter \<Rightarrow> RateLimiter" where
  "applyOp (IsAllowed now i) rl = snd (isAllowed now i rl)"
| "applyOp (Cleanup now) rl = cleanup now rl"
| "applyOp (GetCurrentLimit now i) rl = snd (getCurrentLimit now i rl)"
| "applyOp ResetLimits rl = resetLimits rl"

fun applyOps :: "limiterOp list \<Rightarrow> RateLimiter \<Rightarrow> RateLimiter" where
  "applyOps [] rl = rl"
| "applyOps (op # ops) rl = applyOps ops (applyOp op rl)"

definition quotaInv :: "RateLimiter \<Rightarrow> bool" where
  "quotaInv rl \<longleftrightarrow>
     (\<forall>key entry. limits rl key = Some entry \<longrightarrow> 1 \<le> count entry \<and> count entry \<le> maxRequests rl)"

section \<open>JavaScript strings and the string methods the code uses\<close>

text \<open>
  Strings are modelled as \<open>string\<close>, one \<open>char\<close> per UTF-16 code unit, which restricts the
  model to code units below 256 (Latin-1).  Within that range the functions below follow
  ECMAScript: \<open>isWhiteSpace\<close> is the set recognised by \<open>\s\<close> and stripped by \<open>trim\<close>,
  \<open>toLowerCase\<close> maps \<open>A-Z\<close> and the Latin-1 capitals to their small letters, and
  \<open>isWordChar\<close> is the class \<open>\w\<close>.
\<close>

definition isWhiteSpace :: "char \<Rightarrow> bool" where
  "isWhiteSpace c \<longleftrightarrow>
     c = CHR 0x09 \<or> c = CHR 0x0A \<or> c = CHR 0x0B \<or> c = CHR 0x0C \<or> c = CHR 0x0D \<or>
     c = CHR 0x20 \<or> c = CHR 0xA0"

definition toLowerCaseChar :: "char \<Rightarrow> char" where
  "toLowerCaseChar c =
     (let n = (of_char c :: nat)
      in if (65 \<le> n \<and> n \<le> 90) \<or> (192 \<le> n \<and> n \<le> 222 \<and> n \<noteq> 215)
         then char_of (n + 32) else c)"

definition toLowerCase :: "string \<Rightarrow> string" where
  "toLowerCase s = map toLowerCaseChar s"

definition isWordChar :: "char \<Rightarrow> bool" where
  "isWordChar c \<longleftrightarrow>
     (let n = (of_char c :: nat)
      in (48 \<le> n \<and> n \<le> 57) \<or> (65 \<le> n \<and> n \<le> 90) \<or> n = 95 \<or> (97 \<le> n \<and> n \<le> 122))"

fun startsWith :: "string \<Rightarrow> string \<Rightarrow> bool" where
  "startsWith s [] = True"
| "startsWith [] (k # ks) = False"
| "startsWith (c # cs) (k # ks) = (c = k \<and> startsWith cs ks)"

text \<open>\<open>s.includes(k)\<close>: \<open>k\<close> occurs in \<open>s\<close> at some position.\<close>

fun includes_str :: "string \<Rightarrow> string \<Rightarrow> bool" where
  "includes_str [] k = (k = [])"
| "includes_str (c # cs) k = (startsWith (c # cs) k \<or> includes_str cs k)"

definition endsWith :: "string \<Rightarrow> string \<Rightarrow> bool" where
  "endsWith s k = startsWith (rev s) (rev k)"

definition trim :: "string \<Rightarrow> string" where
  "trim s = rev (dropWhile isWhiteSpace (rev (dropWhile isWhiteSpace s)))"

text \<open>
  \<open>s.split(/\s+/)\<close>: the pieces between maximal runs of white space.  A run at the very
  start or end of \<open>s\<close> leaves an empty piece there, and the empty string gives one empty
  piece.  \<open>inRun\<close> says that the previous character belonged to a run; \<open>cur\<close> is the piece
  being read, reversed.
\<close>

fun splitWhiteSpaceFrom :: "bool \<Rightarrow> string \<Rightarrow> string \<Rightarrow> string list" where
  "splitWhiteSpaceFrom inRun cur [] = [rev cur]"
| "splitWhiteSpaceFrom inRun cur (c # cs) =
     (if isWhiteSpace c then
        (if inRun then splitWhiteSpaceFrom True cur cs
         else rev cur # splitWhiteSpaceFrom True [] cs)
      else splitWhiteSpaceFrom False (c # cur) cs)"

definition splitWhiteSpace :: "string \<Rightarrow> string list" where
  "splitWhiteSpace s = splitWhiteSpaceFrom False [] s"

text \<open>\<open>s.split(' ')\<close>: the pieces between single space characters.\<close>

fun splitSpaceFrom :: "string \<Rightarrow> string \<Rightarrow> string list" where
  "splitSpaceFrom cur [] = [rev cur]"
| "splitSpaceFrom cur (c # cs) =
     (if c = CHR '' '' then rev cur # splitSpaceFrom [] cs else splitSpaceFrom (c # cur) cs)"

definition splitSpace :: "string \<Rightarrow> string list" where
  "splitSpace s = splitSpaceFrom [] s"

text \<open>\<open>xs.join(', ')\<close>.\<close>

fun joinComma :: "string list \<Rightarrow> string" where
  "joinComma [] = []"
| "joinComma [x] = x"
| "joinComma (x # y # ys) = x @ '', '' @ joinComma (y # ys)"

subsection \<open>Regular expressions of the form \<open>/\b(w1|...|wn)\b/i\<close> and \<open>/w/i\<close>\<close>

text \<open>
  \<open>\b\<close> holds between two neighbouring positions exactly when one of them is a word
  character and the other is not; the positions before the first and after the last
  character count as non-word.  Under the flag \<open>i\<close> (without \<open>u\<close>) a character matches a
  small ASCII letter of the pattern exactly when it is that letter or its capital.
\<close>

definition isWordCharAt :: "char option \<Rightarrow> bool" where
  "isWordCharAt c = (case c of None \<Rightarrow> False | Some x \<Rightarrow> isWordChar x)"

definition wordBoundary :: "char option \<Rightarrow> char option \<Rightarrow> bool" where
  "wordBoundary a b \<longleftrightarrow> isWordCharAt a \<noteq> isWordCharAt b"

definition headChar :: "string \<Rightarrow> char option" where
  "headChar s = (case s of [] \<Rightarrow> None | c # _ \<Rightarrow> Some c)"

definition lastCharOr :: "char option \<Rightarrow> string \<Rightarrow> char option" where
  "lastCharOr prev s = (if s = [] then prev else Some (last s))"

fun startsWithIgnoreCase :: "string \<Rightarrow> string \<Rightarrow> bool" where
  "startsWithIgnoreCase s [] = True"
| "startsWithIgnoreCase [] (k # ks) = False"
| "startsWithIgnoreCase (c # cs) (k # ks) = (toLowerCaseChar c = k \<and> startsWithIgnoreCase cs ks)"

text \<open>
  One alternative \<open>w\<close> of \<open>\b(...)\b\<close> tried at the current position: \<open>prev\<close> is the
  character before it and \<open>s\<close> the rest of the input.
\<close>

definition matchWordHere :: "char option \<Rightarrow> string \<Rightarrow> string \<Rightarrow> bool" where
  "matchWordHere prev s w \<longleftrightarrow>
     startsWithIgnoreCase s w \<and>
     wordBoundary prev (headChar s) \<and>
     wordBoundary (lastCharOr prev (take (length w) s)) (headChar (drop (length w) s))"

fun testWordsFrom :: "string list \<Rightarrow> char option \<Rightarrow> string \<Rightarrow> bool" where
  "testWordsFrom ws prev [] = list_ex (matchWordHere prev []) ws"
| "testWordsFrom ws prev (c # cs) =
     (list_ex (matchWordHere prev (c # cs)) ws \<or> testWordsFrom ws (Some c) cs)"

text \<open>\<open>/\b(w1|...|wn)\b/i.test(s)\<close>, the alternatives given in small letters.\<close>

definition testWords :: "string list \<Rightarrow> string \<Rightarrow> bool" where
  "testWords ws s = testWordsFrom ws None s"

text \<open>\<open>/w/i.test(s)\<close> for a pattern \<open>w\<close> of small ASCII letters.\<close>

definition testIgnoreCase :: "string \<Rightarrow> string \<Rightarrow> bool" where
  "testIgnoreCase w s = includes_str (toLowerCase s) w"


section \<open>Content safety evaluator (\<open>checkContentSafety\<close>)\<close>

text \<open>
  \<open>INAPPROPRIATE_PATTERNS\<close>: the categories in the order of \<open>Object.entries\<close>, each with
  its list of matchers; a matcher \<open>/\b(w1|...|wn)\b/i\<close> is given by its alternatives.
\<close>

definition INAPPROPRIATE_PATTERNS :: "(string \<times> string list list) list" where
  "INAPPROPRIATE_PATTERNS =
     [(''violence'',
         [[''kill'', ''murder'', ''death'', ''blood'', ''gore'', ''torture'', ''pain'', ''suffering''],
          [''war'', ''battle'', ''fight'', ''attack'', ''destroy'', ''crush'', ''smash'', ''burn'']]),
      (''sexual'',
         [[''sex'', ''sexual'', ''nude'', ''naked'', ''intimate'', ''romance'', ''love'', ''kiss'']]),
      (''hate'',
         [[''hate'', ''racist'', ''discriminate'', ''insult'', ''curse'', ''swear'']]),
      (''inappropriate'',
         [[''drug'', ''alcohol'', ''smoke'', ''drunk'', ''high'']])]"

record SafetyCategories =
  cat_violence :: bool
  cat_sexual :: bool
  cat_hate :: bool
  cat_inappropriate :: bool

text \<open>
  The result object; the fields \<open>score\<close>, \<open>issues\<close> and \<open>suggestions\<close> of the source
  carry the prefix \<open>safety_\<close>, since other result types of the program use the same names.
\<close>

record SafetyCheckResult =
  safe :: bool
  flagged :: bool
  categories :: SafetyCategories
  safety_score :: int
  safety_issues :: "string list"
  safety_suggestions :: "string list"

text \<open>The local variables \<open>score\<close>, \<open>flagged\<close>, \<open>issues\<close> and \<open>suggestions\<close> of the function.\<close>

record safetyVars =
  var_score :: int
  var_flagged :: bool
  var_issues :: "string list"
  var_suggestions :: "string list"

text \<open>The \<open>switch (category)\<close>: what it pushes onto \<open>suggestions\<close>.\<close>

definition categorySuggestion :: "string \<Rightarrow> string list" where
  "categorySuggestion category =
     (if category = ''violence'' then
        [''Consider using more peaceful language or focusing on the spiritual aspects'']
      else if category = ''sexual'' then
        [''Focus on the divine and spiritual aspects of the story'']
      else if category = ''hate'' then
        [''Use respectful and inclusive language'']
      else if category = ''inappropriate'' then
        [''Keep content family-friendly and appropriate'']
      else [])"

text \<open>The body of the inner loop, for one matcher of one category.\<close>

definition checkPattern :: "string \<Rightarrow> string \<Rightarrow> string list \<Rightarrow> safetyVars \<Rightarrow> safetyVars" where
  "checkPattern content category pattern v =
     (if testWords pattern content then
        v\<lparr>var_flagged := True,
          var_score := var_score v - 20,
          var_issues := var_issues v @ [''Contains '' @ category @ '' content''],
          var_suggestions := var_suggestions v @ categorySuggestion category\<rparr>
      else v)"

fun checkPatternList :: "string \<Rightarrow> string \<Rightarrow> string list list \<Rightarrow> safetyVars \<Rightarrow> safetyVars" where
  "checkPatternList content category [] v = v"
| "checkPatternList content category (pattern # patterns) v =
     checkPatternList content category patterns (checkPattern content category pattern v)"

fun checkCategories :: "string \<Rightarrow> (string \<times> string list list) list \<Rightarrow> safetyVars \<Rightarrow> safetyVars" where
  "checkCategories content [] v = v"
| "checkCategories content ((category, patterns) # rest) v =
     checkCategories content rest (checkPatternList content category patterns v)"

definition mythologicalKeywords :: "string list" where
  "mythologicalKeywords =
     [''krishna'', ''rama'', ''hanuman'', ''shiva'', ''durga'', ''ganesha'',
      ''mahabharata'', ''ramayana'', ''bhagavad gita'', ''vedas'', ''upanishads'',
      ''temple'', ''ashram'', ''guru'', ''yoga'', ''meditation'', ''dharma'',
      ''karma'', ''moksha'', ''bhakti'', ''deva'', ''asura'', ''avatar'']"

definition checkMythologicalRelevance :: "string \<Rightarrow> bool" where
  "checkMythologicalRelevance content = list_ex (includes_str content) mythologicalKeywords"

text \<open>The word-count step of \<open>checkContentSafety\<close>.\<close>

definition checkLength :: "string \<Rightarrow> safetyVars \<Rightarrow> safetyVars" where
  "checkLength content v =
     (let wordCount = int (length (splitWhiteSpace content))
      in if wordCount < 3 then
           v\<lparr>var_score := var_score v - 10,
             var_issues := var_issues v @ [''Content too short''],
             var_suggestions := var_suggestions v @
               [''Provide more descriptive content for better results'']\<rparr>
         else if wordCount > 50 then
           v\<lparr>var_score := var_score v - 15,
             var_issues := var_issues v @ [''Content too long''],
             var_suggestions := var_suggestions v @ [''Keep descriptions concise and focused'']\<rparr>
         else v)"

definition checkRelevance :: "string \<Rightarrow> safetyVars \<Rightarrow> safetyVars" where
  "checkRelevance lowerContent v =
     (if \<not> checkMythologicalRelevance lowerContent then
        v\<lparr>var_score := var_score v - 25,
          var_issues := var_issues v @ [''Content lacks mythological elements''],
          var_suggestions := var_suggestions v @
            [''Include references to Indian mythology, characters, or concepts'']\<rparr>
      else v)"

definition checkContentSafety :: "string \<Rightarrow> SafetyCheckResult" where
  "checkContentSafety content =
     (let lowerContent = toLowerCase content;
          v0 = \<lparr>var_score = 100, var_flagged = False, var_issues = [], var_suggestions = []\<rparr>;
          v1 = checkCategories content INAPPROPRIATE_PATTERNS v0;
          v2 = checkLength content v1;
          v3 = checkRelevance lowerContent v2
      in \<lparr>safe = (var_score v3 \<ge> 70),
          flagged = var_flagged v3,
          categories =
            \<lparr>cat_violence = testIgnoreCase ''violence'' content,
             cat_sexual = testIgnoreCase ''sexual'' content,
             cat_hate = testIgnoreCase ''hate'' content,
             cat_inappropriate = testIgnoreCase ''inappropriate'' content\<rparr>,
          safety_score = max 0 (var_score v3),
          safety_issues = var_issues v3,
          safety_suggestions = var_suggestions v3\<rparr>)"

subsection \<open>The deductions of \<open>checkContentSafety\<close> in closed form\<close>

text \<open>
  The matchers of all categories, each paired with its category, in the order in which the
  nested loops visit them, and those of them that a text matches.
\<close>

definition allMatchers :: "(string \<times> string list) list" where
  "allMatchers = concat (map (\<lambda>(category, patterns). map (Pair category) patterns) INAPPROPRIATE_PATTERNS)"

definition matchedMatchers :: "string \<Rightarrow> (string \<times> string list) list" where
  "matchedMatchers content = filter (\<lambda>(category, pattern). testWords pattern content) allMatchers"

definition lengthDeduction :: "string \<Rightarrow> int" where
  "lengthDeduction content =
     (let wordCount = int (length (splitWhiteSpace content))
      in if wordCount < 3 then 10 else if wordCount > 50 then 15 else 0)"

definition relevanceDeduction :: "string \<Rightarrow> int" where
  "relevanceDeduction content =
     (if checkMythologicalRelevance (toLowerCase content) then 0 else 25)"

text \<open>
  A phrase ``matches an unsafe-category pattern'' when one of the matchers of one of the
  four categories tests true on it.
\<close>

definition matchesUnsafeCategory :: "string \<Rightarrow> bool" where
  "matchesUnsafeCategory phrase = list_ex (\<lambda>(category, pattern). testWords pattern phrase) allMatchers"


section \<open>JavaScript values and generated scripts\<close>

text \<open>
  A value of type \<open>any\<close>, as far as the code inspects it: what \<open>JSON.parse\<close> can return
  (numbers as integers, since only their truthiness is ever used), \<open>undefined\<close>, and the
  members that every object literal inherits from \<open>Object.prototype\<close>, named by their key.
  An object is the list of its own properties.
\<close>

datatype jsval =
    JUndefined
  | JNull
  | JBool bool
  | JNum int
  | JStr string
  | JArr "jsval list"
  | JObj "(string \<times> jsval) list"
  | JBuiltin string

text \<open>Truthiness, as used by \<open>!v\<close>, \<open>v && ...\<close> and \<open>v || ...\<close>.\<close>

fun truthy :: "jsval \<Rightarrow> bool" where
  "truthy JUndefined = False"
| "truthy JNull = False"
| "truthy (JBool b) = b"
| "truthy (JNum n) = (n \<noteq> 0)"
| "truthy (JStr s) = (s \<noteq> [])"
| "truthy (JArr xs) = True"
| "truthy (JObj props) = True"
| "truthy (JBuiltin name) = True"

text \<open>
  \<open>v.name\<close> for a truthy \<open>v\<close> and one of the three field names of a script, which no
  prototype defines: an own property of an object, \<open>undefined\<close> on everything else.
\<close>

fun getProp :: "jsval \<Rightarrow> string \<Rightarrow> jsval" where
  "getProp (JObj props) name = (case map_of props name of Some v \<Rightarrow> v | None \<Rightarrow> JUndefined)"
| "getProp v name = JUndefined"

text \<open>\<open>typeof v === 'string'\<close>.\<close>

fun isString :: "jsval \<Rightarrow> bool" where
  "isString (JStr s) = True"
| "isString v = False"

text \<open>The string held by a value known to be a string.\<close>

fun stringOf :: "jsval \<Rightarrow> string" where
  "stringOf (JStr s) = s"
| "stringOf v = []"

text \<open>The object literal \<open>{ narrator_caption: n, dialogue: d, image_description: i }\<close>.\<close>

definition scriptObject :: "string \<Rightarrow> string \<Rightarrow> string \<Rightarrow> jsval" where
  "scriptObject n d i =
     JObj [(''narrator_caption'', JStr n), (''dialogue'', JStr d), (''image_description'', JStr i)]"

section \<open>The provider adapter \<open>AIClient\<close>\<close>

text \<open>
  \<open>validateScriptStructure\<close> returns the value of a chain of \<open>&&\<close>, which its callers only
  negate; the model returns the truthiness of that value.
\<close>

definition validateScriptStructure :: "jsval \<Rightarrow> bool" where
  "validateScriptStructure script \<longleftrightarrow>
     truthy script \<and>
     isString (getProp script ''narrator_caption'') \<and>
     isString (getProp script ''dialogue'') \<and>
     isString (getProp script ''image_description'') \<and>
     length (stringOf (getProp script ''narrator_caption'')) > 0 \<and>
     length (stringOf (getProp script ''image_description'')) > 0"

text \<open>
  The second structural check, written inline in the handler of the combined pipeline
  (it throws when this condition holds).
\<close>

definition scriptIncomplete :: "jsval \<Rightarrow> bool" where
  "scriptIncomplete script \<longleftrightarrow>
     \<not> truthy script \<or>
     \<not> isString (getProp script ''narrator_caption'') \<or>
     \<not> isString (getProp script ''dialogue'') \<or>
     \<not> isString (getProp script ''image_description'') \<or>
     length (trim (stringOf (getProp script ''narrator_caption''))) = 0 \<or>
     length (trim (stringOf (getProp script ''image_description''))) = 0"

text \<open>Errors thrown by the code, with their message.\<close>

datatype jsError = Error string | TypeError string

text \<open>The fields of the client that are set once by the constructor.\<close>

record AIClient =
  useMockMode :: bool
  maxRetries :: nat
  contentSafetyEnabled :: bool

subsection \<open>The canned scripts of \<open>generateMockScript\<close> and \<open>generateScript\<close>\<close>

text \<open>
  The object literals of the source, in the order of their appearance; \<open>defaultScript\<close> is the
  fallback inside \<open>generateScript\<close>.
\<close>

definition mockKrishnaGovardhan :: jsval where
  "mockKrishnaGovardhan =
     scriptObject
       (''With divine strength, Lord Krishna lifts the mighty Govardhan Hill to '' @
        ''protect his devotees.'')
       (''Fear not, my children!'')
       (''Krishna in his blue form holds up the massive Govardhan Hill with one '' @
        ''finger, while villagers and animals shelter beneath. His face radiates '' @
        ''divine protection and love. The scene shows the contrast between the '' @
        ''massive mountain and the small figure beneath it.'')"

definition mockKrishnaFlute :: jsval where
  "mockKrishnaFlute =
     scriptObject
       (''Lord Krishna's divine flute calls forth the magic of creation itself.'')
       (''Come, let us dance!'')
       (''Krishna in his characteristic blue form plays a golden flute, '' @
        ''surrounded by mesmerized devotees and animals. His peacock feather '' @
        ''crown gleams, and the scene is filled with divine music notes and '' @
        ''ethereal light.'')"

definition mockRamaBow :: jsval where
  "mockRamaBow =
     scriptObject
       (''Prince Rama's mighty strength shatters the divine bow, proving his '' @
        ''worthiness.'')
       (''For Sita's hand!'')
       (''Rama in royal attire stands before the broken pieces of Shiva's divine '' @
        ''bow. His face shows determination and divine power. The scene includes '' @
        ''amazed onlookers and Sita watching with admiration. Golden light '' @
        ''surrounds the moment of triumph.'')"

definition mockRamaArrow :: jsval where
  "mockRamaArrow =
     scriptObject
       (''Prince Rama's arrow flies true, guided by dharma and divine purpose.'')
       (''For justice and truth!'')
       (''Rama in royal attire draws his mighty bow, aiming with perfect focus. '' @
        ''His face shows determination and righteousness. The arrow glows with '' @
        ''divine energy, and the background shows a forest setting with his '' @
        ''loyal companions.'')"

definition mockHanuman :: jsval where
  "mockHanuman =
     scriptObject
       (''Hanuman's mighty leap carries him across the vast ocean, mountain in '' @
        ''hand.'')
       (''For Lord Rama!'')
       (''Hanuman in his orange form leaps dramatically across the ocean, '' @
        ''carrying the Dronagiri mountain. His face shows determination and '' @
        ''devotion. The scene captures the dynamic movement with wind effects '' @
        ''and ocean waves below.'')"

definition mockShiva :: jsval where
  "mockShiva =
     scriptObject
       (''Shiva's third eye opens, unleashing cosmic destruction upon the '' @
        ''universe.'')
       (''Enough!'')
       (''Shiva with his third eye open, radiating destructive cosmic energy. '' @
        ''His face shows divine fury and power. The scene includes ash-covered '' @
        ''body, serpents, and cosmic destruction effects. The background shows '' @
        ''the universe being consumed by divine fire.'')"

definition mockDurga :: jsval where
  "mockDurga =
     scriptObject
       (''Goddess Durga's divine weapons strike down the buffalo demon '' @
        ''Mahishasura.'')
       (''Evil shall not prevail!'')
       (''Durga with multiple arms wielding various divine weapons, riding her '' @
        ''lion mount. Her face shows divine fury and determination. The scene '' @
        ''shows the demon Mahishasura being defeated, with divine light and '' @
        ''weapon effects.'')"

definition mockGanesha :: jsval where
  "mockGanesha =
     scriptObject
       (''Ganesha's wisdom flows as he writes the great epic, guided by Vyasa's '' @
        ''words.'')
       (''The story unfolds...'')
       (''Ganesha with his elephant head sits writing, while Vyasa dictates the '' @
        ''Mahabharata. His mouse companion sits nearby. The scene shows ancient '' @
        ''scrolls, divine wisdom, and the sacred act of preserving knowledge.'')"

definition mockMeditation :: jsval where
  "mockMeditation =
     scriptObject
       (''In the sacred grove, the seeker's soul transcends mortal boundaries, '' @
        ''touched by divine wisdom.'')
       (''I see the truth now...'')
       (''A serene figure in white robes sits in meditation pose within a '' @
        ''mystical forest. Divine light streams down from above, illuminating '' @
        ''their peaceful expression. Sacred symbols float in the air around '' @
        ''them, and ancient trees form a natural temple.'')"

definition mockBattle :: jsval where
  "mockBattle =
     scriptObject
       (''With divine fury coursing through his veins, the warrior stands '' @
        ''resolute against the demonic horde.'')
       (''I shall not yield!'')
       (''A muscular warrior in traditional Indian armor stands defiantly, '' @
        ''wielding a glowing divine weapon. His face shows determination and '' @
        ''divine radiance. Behind him, a dark demonic army approaches. The scene '' @
        ''is bathed in golden light with dramatic shadows.'')"

definition mockScriptsAction :: jsval where
  "mockScriptsAction =
     scriptObject
       (''With divine fury coursing through his veins, the warrior stands '' @
        ''resolute against the demonic horde.'')
       (''I shall not yield!'')
       (''A muscular warrior in traditional Indian armor stands defiantly, '' @
        ''wielding a glowing divine weapon. His face shows determination and '' @
        ''divine radiance. Behind him, a dark demonic army approaches. The scene '' @
        ''is bathed in golden light with dramatic shadows.'')"

definition mockScriptsSpiritual :: jsval where
  "mockScriptsSpiritual =
     scriptObject
       (''In the sacred grove, the seeker's soul transcends mortal boundaries, '' @
        ''touched by divine wisdom.'')
       (''I see the truth now...'')
       (''A serene figure in white robes sits in meditation pose within a '' @
        ''mystical forest. Divine light streams down from above, illuminating '' @
        ''their peaceful expression. Sacred symbols float in the air around '' @
        ''them, and ancient trees form a natural temple.'')"

definition mockScriptsDefault :: jsval where
  "mockScriptsDefault =
     scriptObject
       (''The ancient tale unfolds as destiny weaves its intricate pattern '' @
        ''through the fabric of time.'')
       (''So it begins...'')
       (''A majestic figure in traditional Indian attire stands before a grand '' @
        ''temple. Their pose conveys wisdom and authority. The background shows '' @
        ''intricate architectural details and mystical symbols. Soft lighting '' @
        ''creates an atmosphere of reverence.'')"

definition defaultScript :: jsval where
  "defaultScript =
     scriptObject
       (''The ancient tale unfolds as destiny weaves its intricate pattern.'')
       (''So it begins...'')
       (''A majestic figure in traditional Indian attire stands before a grand '' @
        ''temple with intricate architectural details and mystical symbols.'')"

text \<open>
  The keys that an object literal inherits from \<open>Object.prototype\<close>.  Reading one of them
  from a literal that does not define it yields a built-in function (for \<open>__proto__\<close>
  the prototype object), which is truthy and has none of the fields of a script.
\<close>

definition objectPrototypeKeys :: "string list" where
  "objectPrototypeKeys =
     [''constructor'', ''hasOwnProperty'', ''isPrototypeOf'', ''propertyIsEnumerable'',
      ''toLocaleString'', ''toString'', ''valueOf'', ''__defineGetter__'', ''__defineSetter__'',
      ''__lookupGetter__'', ''__lookupSetter__'', ''__proto__'']"

text \<open>\<open>literal[key]\<close> for an object literal with the given own properties.\<close>

definition lookupLiteral :: "(string \<times> jsval) list \<Rightarrow> string \<Rightarrow> jsval" where
  "lookupLiteral props key =
     (case map_of props key of
        Some v \<Rightarrow> v
      | None \<Rightarrow> if key \<in> set objectPrototypeKeys then JBuiltin key else JUndefined)"

definition mockScripts :: "(string \<times> jsval) list" where
  "mockScripts =
     [(''action'', mockScriptsAction), (''spiritual'', mockScriptsSpiritual),
      (''default'', mockScriptsDefault)]"

definition generateMockScript :: "string \<Rightarrow> string \<Rightarrow> jsval" where
  "generateMockScript scene sceneType =
     (let lowerScene = toLowerCase scene
      in if includes_str lowerScene ''krishna'' \<or> includes_str lowerScene ''flute'' \<or>
            includes_str lowerScene ''govardhan'' then
           (if includes_str lowerScene ''govardhan'' \<or> includes_str lowerScene ''lift''
            then mockKrishnaGovardhan else mockKrishnaFlute)
         else if includes_str lowerScene ''ram'' \<or> includes_str lowerScene ''bow'' \<or>
                 includes_str lowerScene ''arrow'' \<or> includes_str lowerScene ''sita'' then
           (if includes_str lowerScene ''bow'' \<or> includes_str lowerScene ''break''
            then mockRamaBow else mockRamaArrow)
         else if includes_str lowerScene ''hanuman'' \<or> includes_str lowerScene ''leap'' \<or>
                 includes_str lowerScene ''mountain'' then mockHanuman
         else if includes_str lowerScene ''shiva'' \<or> includes_str lowerScene ''third eye'' \<or>
                 includes_str lowerScene ''cosmic'' then mockShiva
         else if includes_str lowerScene ''durga'' \<or> includes_str lowerScene ''battle'' \<or>
                 includes_str lowerScene ''demon'' then mockDurga
         else if includes_str lowerScene ''ganesha'' \<or> includes_str lowerScene ''writing'' \<or>
                 includes_str lowerScene ''mahabharata'' then mockGanesha
         else if includes_str lowerScene ''meditation'' \<or> includes_str lowerScene ''spiritual'' \<or>
                 includes_str lowerScene ''enlighten'' then mockMeditation
         else if includes_str lowerScene ''battle'' \<or> includes_str lowerScene ''fight'' \<or>
                 includes_str lowerScene ''war'' then mockBattle
         else (let byType = lookupLiteral mockScripts sceneType
               in if truthy byType then byType else mockScriptsDefault))"

text \<open>
  \<open>generateScript\<close>.  In mock mode it runs the \<open>try\<close> block around \<open>generateMockScript\<close>
  and, when the result fails the structural check, the \<open>catch\<close> block with the default
  script.  The live branch talks to the external provider; its outcome is the parameter
  \<open>live\<close>.
\<close>

definition generateScript ::
  "AIClient \<Rightarrow> (string \<Rightarrow> string \<Rightarrow> jsError + jsval) \<Rightarrow> string \<Rightarrow> string \<Rightarrow> jsError + jsval" where
  "generateScript client live scene sceneType =
     (if useMockMode client then
        (let mockScript = generateMockScript scene sceneType
         in if validateScriptStructure mockScript then Inr mockScript
            else if validateScriptStructure defaultScript then Inr defaultScript
            else Inl (Error ''Failed to generate script: Default script structure is invalid''))
      else live scene sceneType)"

subsection \<open>The placeholder images of \<open>generateMockImage\<close>\<close>

definition imageVibrant :: string where
  "imageVibrant =
     ''https://images.unsplash.com/photo-1578662996442-48f60103fc96'' @
     ''?w=800&h=600&fit=crop&crop=center&q=80''"

definition imageEarth :: string where
  "imageEarth =
     ''https://images.unsplash.com/photo-1541961017774-22349e4a1262'' @
     ''?w=800&h=600&fit=crop&crop=center&q=80''"

definition imageDivine :: string where
  "imageDivine =
     ''https://images.unsplash.com/photo-1506905925346-21bda4d32df4'' @
     ''?w=800&h=600&fit=crop&crop=center&q=80''"

definition styleImages :: "(string \<times> jsval) list" where
  "styleImages =
     [(''vibrant'', JStr imageVibrant), (''earth'', JStr imageEarth), (''divine'', JStr imageDivine)]"

definition generateMockImage :: "string \<Rightarrow> string \<Rightarrow> jsval" where
  "generateMockImage prompt styleType =
     (let lowerPrompt = toLowerCase prompt
      in if includes_str lowerPrompt ''krishna'' \<or> includes_str lowerPrompt ''flute'' \<or>
            includes_str lowerPrompt ''govardhan'' then JStr imageVibrant
         else if includes_str lowerPrompt ''ram'' \<or> includes_str lowerPrompt ''bow'' \<or>
                 includes_str lowerPrompt ''arrow'' \<or> includes_str lowerPrompt ''sita''
           then JStr imageDivine
         else if includes_str lowerPrompt ''hanuman'' \<or> includes_str lowerPrompt ''monkey'' \<or>
                 includes_str lowerPrompt ''leap'' \<or> includes_str lowerPrompt ''mountain''
           then JStr imageEarth
         else if includes_str lowerPrompt ''shiva'' \<or> includes_str lowerPrompt ''meditation'' \<or>
                 includes_str lowerPrompt ''third eye'' \<or> includes_str lowerPrompt ''cosmic''
           then JStr imageDivine
         else if includes_str lowerPrompt ''durga'' \<or> includes_str lowerPrompt ''battle'' \<or>
                 includes_str lowerPrompt ''demon'' \<or> includes_str lowerPrompt ''weapon''
           then JStr imageVibrant
         else if includes_str lowerPrompt ''ganesha'' \<or> includes_str lowerPrompt ''wisdom'' \<or>
                 includes_str lowerPrompt ''writing'' \<or> includes_str lowerPrompt ''elephant''
           then JStr imageEarth
         else if includes_str lowerPrompt ''temple'' \<or> includes_str lowerPrompt ''spiritual'' \<or>
                 includes_str lowerPrompt ''divine'' \<or> includes_str lowerPrompt ''sacred''
           then JStr imageDivine
         else if includes_str lowerPrompt ''battle'' \<or> includes_str lowerPrompt ''fight'' \<or>
                 includes_str lowerPrompt ''war'' \<or> includes_str lowerPrompt ''attack''
           then JStr imageVibrant
         else (let byStyle = lookupLiteral styleImages styleType
               in if truthy byStyle then byStyle else JStr imageVibrant))"

text \<open>
  \<open>generateImage\<close>: the mock branch returns at once; the outcome of the live branch
  (content check, prompt enhancement and the provider call) is the parameter \<open>live\<close>.
\<close>

definition generateImage ::
  "AIClient \<Rightarrow> (string \<Rightarrow> string \<Rightarrow> jsError + jsval) \<Rightarrow> string \<Rightarrow> string \<Rightarrow> jsError + jsval" where
  "generateImage client live prompt styleType =
     (if useMockMode client then Inr (generateMockImage prompt styleType)
      else live prompt styleType)"


subsection \<open>\<open>AIClient.checkContentSafety\<close>\<close>

text \<open>
  One element of \<open>response.results\<close> of the moderation endpoint, and the verdict that
  the method returns.  The call to the external provider is the parameter \<open>moderations\<close>:
  it fails with an error or returns the list \<open>results\<close>.
\<close>

record ModerationResult =
  result_flagged :: bool
  result_categories :: "(string \<times> bool) list"

record ClientSafetyVerdict =
  verdict_safe :: bool
  verdict_flagged :: bool
  verdict_categories :: "(string \<times> bool) list"

definition unsafeCategories :: "string list" where
  "unsafeCategories =
     [''hate'', ''hate/threatening'', ''self-harm'', ''sexual'', ''sexual/minors'',
      ''violence'', ''violence/graphic'']"

text \<open>The object \<open>{ safe: true, flagged: false, categories: {} }\<close>.\<close>

definition safeVerdict :: ClientSafetyVerdict where
  "safeVerdict = \<lparr>verdict_safe = True, verdict_flagged = False, verdict_categories = []\<rparr>"

text \<open>
  Everything after the test of \<open>useMockMode\<close> sits in a \<open>try\<close> whose \<open>catch\<close> returns the
  safe verdict; reading \<open>results[0].flagged\<close> of an empty list throws inside it.
\<close>

definition AIClient_checkContentSafety ::
  "AIClient \<Rightarrow> (string \<Rightarrow> jsError + ModerationResult list) \<Rightarrow> string \<Rightarrow> ClientSafetyVerdict" where
  "AIClient_checkContentSafety client moderations content =
     (if useMockMode client then safeVerdict
      else case moderations content of
             Inl error \<Rightarrow> safeVerdict
           | Inr [] \<Rightarrow> safeVerdict
           | Inr (result # rest) \<Rightarrow>
               (let hasUnsafeContent =
                      list_ex (\<lambda>category. map_of (result_categories result) category = Some True)
                        unsafeCategories
                in \<lparr>verdict_safe = \<not> hasUnsafeContent,
                    verdict_flagged = result_flagged result,
                    verdict_categories = result_categories result\<rparr>))"

section \<open>The script-stage request handler (\<open>generate-script/route.ts\<close>)\<close>

text \<open>
  The handler sees the client object only through three awaited calls, each of which
  returns a value or throws.  Their outcomes are the fields of \<open>aiClientCalls\<close>; the calls
  that the handler makes are recorded in order.
\<close>

record aiClientCalls =
  call_checkContentSafety :: "string \<Rightarrow> jsError + ClientSafetyVerdict"
  call_generateScript :: "string \<Rightarrow> string \<Rightarrow> jsError + jsval"
  call_validateQuality :: "jsval \<Rightarrow> string \<Rightarrow> jsError + bool"

datatype providerCall =
    CheckContentSafety string
  | GenerateScript string string
  | ValidateQuality jsval string

text \<open>
  The parsed request body (\<open>sceneType\<close> absent when \<open>None\<close>) and the two sources of the
  client identity.
\<close>

record scriptRequest =
  req_scene :: jsval
  req_sceneType :: "string option"
  req_ip :: "string option"
  req_forwardedFor :: "string option"

text \<open>The JSON of a response: an error object, or the success object (without its time stamp).\<close>

record ScriptMetadata =
  meta_scene :: string
  meta_sceneType :: string
  meta_wordCount :: nat
  meta_remaining :: int
  meta_resetTime :: int

datatype httpBody =
    ErrorBody string "int option"
  | ScriptBody jsval ScriptMetadata

record httpResponse =
  status :: nat
  body :: httpBody

definition wordCountError :: string where
  "wordCountError = ''Scene description should be 3-20 words for optimal results''"

definition sceneRequiredError :: string where
  "sceneRequiredError = ''Scene description is required''"

definition rateLimitError :: string where
  "rateLimitError = ''Rate limit exceeded. Please try again later.''"

definition unsafeInputError :: string where
  "unsafeInputError =
     ''Scene description contains inappropriate content. Please modify your request.''"

definition generationFailedError :: string where
  "generationFailedError = ''Failed to generate script. Please try again.''"

text \<open>\<open>request.ip || request.headers.get('x-forwarded-for') || 'unknown'\<close>.\<close>

definition clientIP :: "scriptRequest \<Rightarrow> string" where
  "clientIP req =
     (case req_ip req of
        Some a \<Rightarrow> if a \<noteq> [] then a
                  else (case req_forwardedFor req of
                          Some h \<Rightarrow> if h \<noteq> [] then h else ''unknown''
                        | None \<Rightarrow> ''unknown'')
      | None \<Rightarrow> (case req_forwardedFor req of
                    Some h \<Rightarrow> if h \<noteq> [] then h else ''unknown''
                  | None \<Rightarrow> ''unknown''))"

text \<open>
  The handler from the content safety check on, for an admitted request: the safety
  check inside its own \<open>try\<close>/\<open>catch\<close>, script generation (an error reaches the outer
  \<open>catch\<close>), and the quality check, whose outcome is only logged.
\<close>

definition afterAdmission ::
  "aiClientCalls \<Rightarrow> string \<Rightarrow> string \<Rightarrow> nat \<Rightarrow> RateLimitResult \<Rightarrow> httpResponse \<times> providerCall list" where
  "afterAdmission ai scene sceneType wordCount rateLimit =
     (let rejectedAsUnsafe =
            (case call_checkContentSafety ai scene of
               Inr safetyCheck \<Rightarrow> \<not> verdict_safe safetyCheck
             | Inl error \<Rightarrow> False)
      in if rejectedAsUnsafe then
           (\<lparr>status = 400, body = ErrorBody unsafeInputError None\<rparr>, [CheckContentSafety scene])
         else
           (case call_generateScript ai scene sceneType of
              Inl error \<Rightarrow>
                (\<lparr>status = 500, body = ErrorBody generationFailedError None\<rparr>,
                 [CheckContentSafety scene, GenerateScript scene sceneType])
            | Inr script \<Rightarrow>
                (\<lparr>status = 200,
                   body = ScriptBody script
                     \<lparr>meta_scene = scene, meta_sceneType = sceneType, meta_wordCount = wordCount,
                      meta_remaining = remaining rateLimit,
                      meta_resetTime = resultResetTime rateLimit\<rparr>\<rparr>,
                 [CheckContentSafety scene, GenerateScript scene sceneType,
                  ValidateQuality script scene])))"

text \<open>
  \<open>POST\<close>: the response, the rate limiter afterwards and the calls made to the client.
  A truthy \<open>scene\<close> that is not a string has no method \<open>trim\<close>; the \<open>TypeError\<close> is caught by
  the outer \<open>catch\<close>, which answers with status 500.
\<close>

definition POST_generateScript ::
  "aiClientCalls \<Rightarrow> int \<Rightarrow> scriptRequest \<Rightarrow> RateLimiter \<Rightarrow>
     httpResponse \<times> RateLimiter \<times> providerCall list" where
  "POST_generateScript ai now req scriptRateLimiter =
     (let sceneType = (case req_sceneType req of None \<Rightarrow> ''general'' | Some t \<Rightarrow> t)
      in if \<not> truthy (req_scene req) then
           (\<lparr>status = 400, body = ErrorBody sceneRequiredError None\<rparr>, scriptRateLimiter, [])
         else
           (case req_scene req of
              JStr scene \<Rightarrow>
                if length (trim scene) = 0 then
                  (\<lparr>status = 400, body = ErrorBody sceneRequiredError None\<rparr>, scriptRateLimiter, [])
                else
                  (let wordCount = length (splitWhiteSpace (trim scene))
                   in if wordCount < 3 \<or> wordCount > 20 then
                        (\<lparr>status = 400, body = ErrorBody wordCountError None\<rparr>,
                         scriptRateLimiter, [])
                      else
                        (let (rateLimit, limiter') = isAllowed now (clientIP req) scriptRateLimiter
                         in if \<not> allowed rateLimit then
                              (\<lparr>status = 429,
                                 body = ErrorBody rateLimitError (Some (resultResetTime rateLimit))\<rparr>,
                               limiter', [])
                            else
                              (let (response, calls) =
                                     afterAdmission ai scene sceneType wordCount rateLimit
                               in (response, limiter', calls))))
            | other \<Rightarrow>
                (\<lparr>status = 500, body = ErrorBody generationFailedError None\<rparr>,
                 scriptRateLimiter, [])))"

text \<open>The number of words that the handler counts in a scene text.\<close>

definition sceneWordCount :: "string \<Rightarrow> nat" where
  "sceneWordCount scene = length (splitWhiteSpace (trim scene))"


section \<open>JavaScript numbers\<close>

text \<open>
  A JavaScript number is an IEEE 754 double.  A finite double is modelled by the rational
  number it denotes; \<open>toDouble\<close> rounds a rational to the nearest double, ties to the even
  significand (53 bits), and each arithmetic operation is the exact operation followed by
  that rounding.  Overflow and subnormal numbers are not modelled: every quantity the
  quality evaluator computes lies between 0 and 100.
\<close>

definition roundHalfEven :: "rat \<Rightarrow> int" where
  "roundHalfEven x =
     (let f = \<lfloor>x\<rfloor>; r = x - of_int f
      in if r < 1 / 2 then f else if r > 1 / 2 then f + 1 else if even f then f else f + 1)"

text \<open>The exponent \<open>e\<close> with \<open>2 ^ e \<le> x < 2 ^ (e + 1)\<close> for a positive \<open>x\<close>, searched with fuel.\<close>

fun binade :: "nat \<Rightarrow> rat \<Rightarrow> int" where
  "binade 0 x = 0"
| "binade (Suc fuel) x =
     (if x \<ge> 2 then binade fuel (x / 2) + 1
      else if x < 1 then binade fuel (x * 2) - 1
      else 0)"

definition twoToThe :: "int \<Rightarrow> rat" where
  "twoToThe k = (if k \<ge> 0 then 2 ^ nat k else 1 / 2 ^ nat (- k))"

definition toDouble :: "rat \<Rightarrow> rat" where
  "toDouble x =
     (if x = 0 then 0
      else (let ulp = twoToThe (binade 1100 \<bar>x\<bar> - 52)
            in sgn x * of_int (roundHalfEven (\<bar>x\<bar> / ulp)) * ulp))"

definition dadd :: "rat \<Rightarrow> rat \<Rightarrow> rat" where
  "dadd x y = toDouble (x + y)"

definition dmul :: "rat \<Rightarrow> rat \<Rightarrow> rat" where
  "dmul x y = toDouble (x * y)"

definition ddiv :: "rat \<Rightarrow> rat \<Rightarrow> rat" where
  "ddiv x y = toDouble (x / y)"

text \<open>\<open>Math.round\<close>: the nearest integer, a tie going up.\<close>

definition mathRound :: "rat \<Rightarrow> int" where
  "mathRound x = \<lfloor>x + 1 / 2\<rfloor>"

section \<open>Quality evaluator (\<open>validateQuality\<close>)\<close>

text \<open>
  The script argument has type \<open>any\<close>; the model covers scripts whose three fields are
  strings or absent (\<open>None\<close>), which is what the optional chaining and the \<open>|| ""\<close> of the
  source provide for.  \<open>context\<close> is spread over \<open>{ scene }\<close>, so a \<open>scene\<close> property of
  \<open>context\<close> replaces the argument \<open>scene\<close>; no other property of it is read.
\<close>

record Script =
  narrator_caption :: "string option"
  dialogue :: "string option"
  image_description :: "string option"

text \<open>
  \<open>ValidationResult\<close> and \<open>QualityValidationResult\<close>; \<open>score\<close>, \<open>issues\<close> and \<open>suggestions\<close>
  carry a prefix, see \<open>SafetyCheckResult\<close>.
\<close>

record ValidationResult =
  passed :: bool
  rule_score :: int
  rule_issues :: "string list"
  rule_suggestions :: "string list"

record QualityMetadata =
  mythologicalAccuracy :: int
  visualCoherence :: int
  culturalAuthenticity :: int
  storytellingQuality :: int

record QualityValidationResult =
  valid :: bool
  quality_score :: int
  quality_issues :: "string list"
  quality_suggestions :: "string list"
  strengths :: "string list"
  metadata :: QualityMetadata

text \<open>\<open>field || ""\<close>, and a field inside a template literal.\<close>

definition orEmpty :: "string option \<Rightarrow> string" where
  "orEmpty field = (case field of None \<Rightarrow> [] | Some s \<Rightarrow> s)"

definition inTemplate :: "string option \<Rightarrow> string" where
  "inTemplate field = (case field of None \<Rightarrow> ''undefined'' | Some s \<Rightarrow> s)"

text \<open>\<open>`${script.narrator_caption} ${script.image_description}`.toLowerCase()\<close>.\<close>

definition scriptContent :: "Script \<Rightarrow> string" where
  "scriptContent script =
     toLowerCase (inTemplate (narrator_caption script) @ '' '' @ inTemplate (image_description script))"

subsection \<open>Helper functions\<close>

definition extractCharacterNames :: "string \<Rightarrow> string list" where
  "extractCharacterNames scene =
     filter (\<lambda>keyword. includes_str (toLowerCase scene) keyword)
       [''krishna'', ''rama'', ''hanuman'', ''shiva'', ''durga'', ''ganesha'',
        ''arjuna'', ''sita'', ''lakshmana'', ''bharata'', ''radha'', ''parvati'']"

text \<open>\<open>checkCharacterAccuracy\<close> returns \<open>accurate\<close> (no issue was pushed), issues, suggestions.\<close>

definition checkCharacterAccuracy :: "string \<Rightarrow> Script \<Rightarrow> bool \<times> string list \<times> string list" where
  "checkCharacterAccuracy character script =
     (let (issues, suggestions) =
            (if character = ''krishna'' \<and>
                (case image_description script of None \<Rightarrow> False | Some d \<Rightarrow> includes_str d ''evil'')
             then ([''Krishna should not be portrayed as evil''],
                   [''Focus on Krishna's divine and protective nature''])
             else ([], []))
      in (length issues = 0, issues, suggestions))"

definition checkMythologicalElements :: "Script \<Rightarrow> bool" where
  "checkMythologicalElements script =
     list_ex (includes_str (scriptContent script))
       [''divine'', ''sacred'', ''cosmic'', ''spiritual'', ''temple'', ''ashram'',
        ''guru'', ''yoga'', ''meditation'', ''dharma'', ''karma'', ''moksha'']"

definition checkCulturalContext :: "Script \<Rightarrow> string list \<times> string list" where
  "checkCulturalContext script = ([], [])"

text \<open>
  \<open>x && y\<close> on two strings is \<open>y\<close> unless \<open>x\<close> is empty, and the array pattern \<open>[a, b]\<close>
  applied to a string binds its first two characters (\<open>undefined\<close> where the string is too
  short, which \<open>includes\<close> then looks up as the word \<open>undefined\<close>).
\<close>

definition andAlso :: "string \<Rightarrow> string \<Rightarrow> string" where
  "andAlso x y = (if x \<noteq> [] then y else x)"

fun firstTwo :: "string \<Rightarrow> string \<times> string" where
  "firstTwo (a # b # rest) = ([a], [b])"
| "firstTwo [a] = ([a], ''undefined'')"
| "firstTwo [] = (''undefined'', ''undefined'')"

definition inconsistencies :: "string list" where
  "inconsistencies =
     [andAlso ''day'' ''stars'', andAlso ''indoor'' ''mountain'', andAlso ''underwater'' ''fire'']"

definition hasLogicalInconsistencies :: "string \<Rightarrow> bool" where
  "hasLogicalInconsistencies imageDesc =
     list_ex (\<lambda>entry. case firstTwo entry of
                 (a, b) \<Rightarrow> includes_str (toLowerCase imageDesc) a \<and>
                           includes_str (toLowerCase imageDesc) b)
       inconsistencies"

definition hasCulturalStereotypes :: "Script \<Rightarrow> bool" where
  "hasCulturalStereotypes script =
     list_ex (includes_str (scriptContent script))
       [''mystical east'', ''exotic'', ''oriental'', ''primitive'']"

definition checkAuthenticCulturalElements :: "Script \<Rightarrow> bool" where
  "checkAuthenticCulturalElements script =
     list_ex (includes_str (scriptContent script))
       [''temple'', ''ashram'', ''guru'', ''yoga'', ''meditation'',
        ''bhakti'', ''dharma'', ''karma'', ''moksha'']"

definition hasNarrativeStructure :: "string \<Rightarrow> bool" where
  "hasNarrativeStructure caption \<longleftrightarrow>
     length (splitSpace caption) \<ge> 10 \<and> includes_str caption '','' \<and> endsWith caption ''.''"

subsection \<open>The four rule validators\<close>

text \<open>The local variables \<open>score\<close>, \<open>issues\<close> and \<open>suggestions\<close> of a validator.\<close>

type_synonym ruleVars = "int \<times> string list \<times> string list"

definition deduct :: "bool \<Rightarrow> int \<Rightarrow> string list \<Rightarrow> string list \<Rightarrow> ruleVars \<Rightarrow> ruleVars" where
  "deduct condition points newIssues newSuggestions v =
     (case v of (score, issues, suggestions) \<Rightarrow>
        if condition then (score - points, issues @ newIssues, suggestions @ newSuggestions)
        else v)"

definition finish :: "ruleVars \<Rightarrow> ValidationResult" where
  "finish v =
     (case v of (score, issues, suggestions) \<Rightarrow>
        \<lparr>passed = (score \<ge> 70), rule_score = max 0 score,
         rule_issues = issues, rule_suggestions = suggestions\<rparr>)"

text \<open>The loop over the character names found in the scene.\<close>

fun checkCharacters :: "string list \<Rightarrow> Script \<Rightarrow> ruleVars \<Rightarrow> ruleVars" where
  "checkCharacters [] script v = v"
| "checkCharacters (character # characters) script v =
     (case checkCharacterAccuracy character script of
        (accurate, issues, suggestions) \<Rightarrow>
          checkCharacters characters script (deduct (\<not> accurate) 15 issues suggestions v))"

definition validateMythologicalAccuracy :: "Script \<Rightarrow> string \<Rightarrow> ValidationResult" where
  "validateMythologicalAccuracy script scene =
     (let v1 = checkCharacters (extractCharacterNames scene) script (100, [], []);
          v2 = deduct (\<not> checkMythologicalElements script) 20
                 [''Missing core mythological elements'']
                 [''Include references to divine powers, sacred places, or spiritual concepts''] v1;
          culturalContext = checkCulturalContext script;
          v3 = deduct (length (fst culturalContext) > 0) 10
                 (fst culturalContext) (snd culturalContext) v2
      in finish v3)"

definition visualElements :: "string list" where
  "visualElements =
     [''character'', ''pose'', ''expression'', ''setting'', ''lighting'',
      ''clothing'', ''weapons'', ''background'', ''atmosphere'']"

definition validateVisualCoherence :: "Script \<Rightarrow> string \<Rightarrow> ValidationResult" where
  "validateVisualCoherence script scene =
     (let imageDesc = orEmpty (image_description script);
          v1 = deduct (length imageDesc < 30) 15
                 [''Image description too short'']
                 [''Provide more detailed visual description''] (100, [], []);
          v2 = deduct (length imageDesc > 100) 10
                 [''Image description too long'']
                 [''Keep description concise but detailed''] v1;
          missingElements =
            filter (\<lambda>element. \<not> includes_str (toLowerCase imageDesc) element) visualElements;
          v3 = deduct (length missingElements > 3) 20
                 [''Missing key visual elements: '' @ joinComma (take 3 missingElements)]
                 [''Include character appearance, setting, and atmosphere details''] v2;
          v4 = deduct (hasLogicalInconsistencies imageDesc) 15
                 [''Visual elements have logical inconsistencies'']
                 [''Ensure all visual elements work together logically''] v3
      in finish v4)"

text \<open>
  \<open>field?.toLowerCase().includes(term)\<close>: \<open>undefined\<close>, which is falsy, for an absent field.
\<close>

definition fieldIncludes :: "string option \<Rightarrow> string \<Rightarrow> bool" where
  "fieldIncludes field term =
     (case field of None \<Rightarrow> False | Some s \<Rightarrow> includes_str (toLowerCase s) term)"

definition validateCulturalAuthenticity :: "Script \<Rightarrow> string \<Rightarrow> ValidationResult" where
  "validateCulturalAuthenticity script scene =
     (let hasDisrespectfulTerms =
            list_ex (\<lambda>term. fieldIncludes (narrator_caption script) term \<or>
                             fieldIncludes (image_description script) term)
              [''idol'', ''pagan'', ''primitive'', ''superstitious''];
          v1 = deduct hasDisrespectfulTerms 25
                 [''Contains disrespectful language'']
                 [''Use respectful and culturally appropriate terminology''] (100, [], []);
          v2 = deduct (hasCulturalStereotypes script) 20
                 [''Contains cultural stereotypes'']
                 [''Avoid oversimplified cultural representations''] v1;
          v3 = deduct (\<not> checkAuthenticCulturalElements script) 15
                 [''Missing authentic cultural elements'']
                 [''Include specific cultural details and traditions''] v2
      in finish v3)"

definition validateStorytellingQuality :: "Script \<Rightarrow> string \<Rightarrow> ValidationResult" where
  "validateStorytellingQuality script scene =
     (let caption = orEmpty (narrator_caption script);
          v1 = deduct (length caption < 15) 15
                 [''Narrator caption too short'']
                 [''Provide more descriptive narration''] (100, [], []);
          v2 = deduct (length caption > 35) 10
                 [''Narrator caption too long'']
                 [''Keep narration concise but impactful''] v1;
          dialogue = orEmpty (dialogue script);
          v3 = deduct (dialogue \<noteq> [] \<and> length dialogue > 20) 10
                 [''Dialogue too long'']
                 [''Keep dialogue short and impactful''] v2;
          hasEmotionalImpact =
            list_ex (\<lambda>word. includes_str (toLowerCase caption) word \<or>
                             includes_str (toLowerCase dialogue) word)
              [''divine'', ''sacred'', ''majestic'', ''powerful'', ''beautiful'', ''awe-inspiring''];
          v4 = deduct (\<not> hasEmotionalImpact) 15
                 [''Lacks emotional impact'']
                 [''Include words that convey mythological grandeur''] v3;
          v5 = deduct (\<not> hasNarrativeStructure caption) 10
                 [''Poor narrative structure'']
                 [''Create a clear beginning, middle, and end in the narration''] v4
      in finish v5)"

subsection \<open>The rule table and the aggregate\<close>

text \<open>
  \<open>VALIDATION_RULES\<close>: name, weight and validator of each rule.  The weights are the
  doubles nearest to the decimal literals of the source.
\<close>

definition VALIDATION_RULES :: "(string \<times> rat \<times> (Script \<Rightarrow> string \<Rightarrow> ValidationResult)) list" where
  "VALIDATION_RULES =
     [(''Mythological Accuracy'', toDouble (3 / 10), validateMythologicalAccuracy),
      (''Visual Coherence'', toDouble (25 / 100), validateVisualCoherence),
      (''Cultural Authenticity'', toDouble (25 / 100), validateCulturalAuthenticity),
      (''Storytelling Quality'', toDouble (2 / 10), validateStorytellingQuality)]"

text \<open>
  The first loop of \<open>validateQuality\<close>: it collects \<open>results\<close> and accumulates \<open>totalScore\<close>
  and \<open>totalWeight\<close> in double arithmetic, starting from \<open>([], 0, 0)\<close>.
\<close>

fun runRules ::
  "(string \<times> rat \<times> (Script \<Rightarrow> string \<Rightarrow> ValidationResult)) list \<Rightarrow> Script \<Rightarrow> string \<Rightarrow>
     ValidationResult list \<times> rat \<times> rat \<Rightarrow> ValidationResult list \<times> rat \<times> rat" where
  "runRules [] script scene acc = acc"
| "runRules ((name, weight, validator) # rules) script scene (results, totalScore, totalWeight) =
     (let result = validator script scene;
          weightedScore = dmul (of_int (rule_score result)) weight
      in runRules rules script scene
           (results @ [result], dadd totalScore weightedScore, dadd totalWeight weight))"

text \<open>\<open>results[i]?.score || 0\<close>.\<close>

definition scoreAt :: "ValidationResult list \<Rightarrow> nat \<Rightarrow> int" where
  "scoreAt results i = (if i < length results then rule_score (results ! i) else 0)"

definition strengthOf :: "ValidationResult \<Rightarrow> string list" where
  "strengthOf result =
     (if rule_score result \<ge> 80
      then [''Strong '' @ (if rule_score result \<ge> 90 then ''excellent'' else ''good'') @ '' quality'']
      else [])"

definition validateQuality :: "Script \<Rightarrow> string \<Rightarrow> string option \<Rightarrow> QualityValidationResult" where
  "validateQuality script scene contextScene =
     (let scene' = (case contextScene of None \<Rightarrow> scene | Some s \<Rightarrow> s);
          (results, totalScore, totalWeight) = runRules VALIDATION_RULES script scene' ([], 0, 0);
          finalScore = (if totalWeight > 0 then ddiv totalScore totalWeight else 0)
      in \<lparr>valid = (finalScore \<ge> 70),
          quality_score = mathRound finalScore,
          quality_issues = concat (map rule_issues results),
          quality_suggestions = concat (map rule_suggestions results),
          strengths = concat (map strengthOf results),
          metadata =
            \<lparr>mythologicalAccuracy = scoreAt results 0,
             visualCoherence = scoreAt results 1,
             culturalAuthenticity = scoreAt results 2,
             storytellingQuality = scoreAt results 3\<rparr>\<rparr>)"

text \<open>
  The weighted sum of four dimension scores with the exact weights 0.30, 0.25, 0.25 and
  0.20, and that of the dimension scores reported in a result.
\<close>

definition weightedSumOf :: "int \<Rightarrow> int \<Rightarrow> int \<Rightarrow> int \<Rightarrow> rat" where
  "weightedSumOf a b c d =
     3 / 10 * of_int a + 25 / 100 * of_int b + 25 / 100 * of_int c + 2 / 10 * of_int d"

definition weightedSum :: "QualityValidationResult \<Rightarrow> rat" where
  "weightedSum r =
     weightedSumOf (mythologicalAccuracy (metadata r)) (visualCoherence (metadata r))
       (culturalAuthenticity (metadata r)) (storytellingQuality (metadata r))"

text \<open>A term ``occurs'' in a description the way the detector looks it up.\<close>

definition occursIn :: "string \<Rightarrow> string \<Rightarrow> bool" where
  "occursIn term imageDesc = includes_str (toLowerCase imageDesc) term"

text \<open>The values a dimension score can take: the multiples of 5 from 0 to 100.\<close>

definition scoreGrid :: "int \<Rightarrow> bool" where
  "scoreGrid s \<longleftrightarrow> 0 \<le> s \<and> s \<le> 100 \<and> 5 dvd s"


section \<open>Evaluating the character functions\<close>

text \<open>
  The two character functions are defined on code units; for evaluation they are given
  equivalent equations on the eight bits of a character (least significant bit first).
\<close>

lemma toLowerCaseChar_bits [code]:
  "toLowerCaseChar (Char b0 b1 b2 b3 b4 b5 b6 b7) =
     (if b6 \<and> \<not> b5 \<and>
         (if b7 then \<not> (b4 \<and> b2 \<and> b1 \<and> b0)
          else (b0 \<or> b1 \<or> b2 \<or> b3 \<or> b4) \<and> \<not> (b4 \<and> b3 \<and> (b2 \<or> (b1 \<and> b0))))
      then Char b0 b1 b2 b3 b4 True b6 b7
      else Char b0 b1 b2 b3 b4 b5 b6 b7)"
  by (cases b0; cases b1; cases b2; cases b3; cases b4; cases b5; cases b6; cases b7;
      simp add: toLowerCaseChar_def char_of_def bit_Suc_0_iff)

lemma isWordChar_bits [code]:
  "isWordChar (Char b0 b1 b2 b3 b4 b5 b6 b7) \<longleftrightarrow>
     \<not> b7 \<and>
     (if b6 then
        ((b0 \<or> b1 \<or> b2 \<or> b3 \<or> b4) \<and> \<not> (b4 \<and> b3 \<and> (b2 \<or> (b1 \<and> b0)))) \<or>
        (\<not> b5 \<and> b0 \<and> b1 \<and> b2 \<and> b3 \<and> b4)
      else b5 \<and> b4 \<and> \<not> (b3 \<and> (b2 \<or> b1)))"
  by (cases b0; cases b1; cases b2; cases b3; cases b4; cases b5; cases b6; cases b7;
      simp add: isWordChar_def)


section \<open>Properties of the rate limiter\<close>

lemma isAllowed_restart:
  assumes "limits rl i = None \<or> (\<exists>e. limits rl i = Some e \<and> now > resetTime e)"
  shows "isAllowed now i rl =
     (\<lparr>allowed = True, remaining = maxRequests rl - 1, resultResetTime = now + windowMs rl\<rparr>,
      rl\<lparr>limits := (limits rl)(i \<mapsto> \<lparr>count = 1, resetTime = now + windowMs rl\<rparr>)\<rparr>)"
  using assms by (auto simp: isAllowed_def Let_def split: option.splits)

lemma checks_in_window:
  assumes "limits rl i = Some e" "resetTime e = R" "\<forall>t\<in>set ts. t \<le> R"
    and "count e + int (length ts) \<le> maxRequests rl"
  shows "(\<forall>r\<in>set (fst (checks i ts rl)). allowed r) \<and>
         limits (snd (checks i ts rl)) i = Some \<lparr>count = count e + int (length ts), resetTime = R\<rparr>
         \<and> maxRequests (snd (checks i ts rl)) = maxRequests rl
         \<and> windowMs (snd (checks i ts rl)) = windowMs rl"
  using assms
proof (induction ts arbitrary: rl e)
  case Nil
  then show ?case by simp
next
  case (Cons t ts)
  let ?e' = "e\<lparr>count := count e + 1\<rparr>"
  let ?rl' = "rl\<lparr>limits := (limits rl)(i \<mapsto> ?e')\<rparr>"
  have step: "isAllowed t i rl = (\<lparr>allowed = True, remaining = maxRequests rl - (count e + 1),
                     resultResetTime = resetTime e\<rparr>, ?rl')"
    using Cons.prems by (auto simp: isAllowed_def Let_def)
  have IH: "(\<forall>r\<in>set (fst (checks i ts ?rl')). allowed r) \<and>
         limits (snd (checks i ts ?rl')) i = Some \<lparr>count = count ?e' + int (length ts), resetTime = R\<rparr>
         \<and> maxRequests (snd (checks i ts ?rl')) = maxRequests ?rl'
         \<and> windowMs (snd (checks i ts ?rl')) = windowMs ?rl'"
    by (rule Cons.IH[of ?rl' ?e']) (use Cons.prems in auto)
  show ?case using IH step by (auto simp: split_beta Let_def)
qed


lemma isAllowed_denied:
  assumes "limits rl i = Some e" "\<not> now > resetTime e" "count e \<ge> maxRequests rl"
  shows "isAllowed now i rl = (\<lparr>allowed = False, remaining = 0, resultResetTime = resetTime e\<rparr>, rl)"
  using assms by (simp add: isAllowed_def Let_def)

text \<open>
  Claim C1.  For every identity and every ceiling of at least 1: a check when no entry exists,
  or when the clock is past the entry's \<open>resetTime\<close>, is allowed, stores count 1 and
  \<open>resetTime = now + windowMs\<close>, and returns \<open>remaining = ceiling - 1\<close>.  After
  \<open>ceiling\<close> admitted checks inside one window (the one that opens the window at \<open>t0\<close> and
  \<open>ceiling - 1\<close> further ones at times not past \<open>t0 + windowMs\<close>), the next check inside the
  same window is denied with \<open>remaining = 0\<close>, and the whole table, in particular the entry's
  count and \<open>resetTime\<close>, is unchanged.
\<close>

theorem C1_fixed_window:
  "(limits rl i = None \<or> (\<exists>e. limits rl i = Some e \<and> resetTime e < t0) \<longrightarrow>
      fst (isAllowed t0 i rl) =
        \<lparr>allowed = True, remaining = maxRequests rl - 1, resultResetTime = t0 + windowMs rl\<rparr> \<and>
      limits (snd (isAllowed t0 i rl)) i = Some \<lparr>count = 1, resetTime = t0 + windowMs rl\<rparr>)
   \<and>
   (1 \<le> maxRequests rl \<and>
    (limits rl i = None \<or> (\<exists>e. limits rl i = Some e \<and> resetTime e < t0)) \<and>
    int (length ts) = maxRequests rl - 1 \<and>
    (\<forall>t\<in>set ts. t \<le> t0 + windowMs rl) \<and> t' \<le> t0 + windowMs rl \<longrightarrow>
      (\<forall>r\<in>set (fst (checks i (t0 # ts) rl)). allowed r) \<and>
      length (fst (checks i (t0 # ts) rl)) = nat (maxRequests rl) \<and>
      fst (isAllowed t' i (snd (checks i (t0 # ts) rl))) =
        \<lparr>allowed = False, remaining = 0, resultResetTime = t0 + windowMs rl\<rparr> \<and>
      snd (isAllowed t' i (snd (checks i (t0 # ts) rl))) = snd (checks i (t0 # ts) rl) \<and>
      limits (snd (checks i (t0 # ts) rl)) i =
        Some \<lparr>count = maxRequests rl, resetTime = t0 + windowMs rl\<rparr>)"
proof (intro conjI impI)
  assume fresh: "limits rl i = None \<or> (\<exists>e. limits rl i = Some e \<and> resetTime e < t0)"
  show "fst (isAllowed t0 i rl) =
        \<lparr>allowed = True, remaining = maxRequests rl - 1, resultResetTime = t0 + windowMs rl\<rparr>"
    using isAllowed_restart[OF fresh] by simp
  show "limits (snd (isAllowed t0 i rl)) i = Some \<lparr>count = 1, resetTime = t0 + windowMs rl\<rparr>"
    using isAllowed_restart[OF fresh] by simp
next
  assume H: "1 \<le> maxRequests rl \<and>
    (limits rl i = None \<or> (\<exists>e. limits rl i = Some e \<and> resetTime e < t0)) \<and>
    int (length ts) = maxRequests rl - 1 \<and>
    (\<forall>t\<in>set ts. t \<le> t0 + windowMs rl) \<and> t' \<le> t0 + windowMs rl"
  let ?e1 = "\<lparr>count = 1, resetTime = t0 + windowMs rl\<rparr>"
  let ?rl1 = "rl\<lparr>limits := (limits rl)(i \<mapsto> ?e1)\<rparr>"
  let ?R = "t0 + windowMs rl"
  from H have fresh: "limits rl i = None \<or> (\<exists>e. limits rl i = Some e \<and> resetTime e < t0)"
    by blast
  have first: "isAllowed t0 i rl =
     (\<lparr>allowed = True, remaining = maxRequests rl - 1, resultResetTime = ?R\<rparr>, ?rl1)"
    by (rule isAllowed_restart[OF fresh])
  have rest: "(\<forall>r\<in>set (fst (checks i ts ?rl1)). allowed r) \<and>
         limits (snd (checks i ts ?rl1)) i = Some \<lparr>count = count ?e1 + int (length ts), resetTime = ?R\<rparr>
         \<and> maxRequests (snd (checks i ts ?rl1)) = maxRequests ?rl1
         \<and> windowMs (snd (checks i ts ?rl1)) = windowMs ?rl1"
    by (rule checks_in_window[of ?rl1 i ?e1 ?R ts]) (use H in auto)
  have unfold: "checks i (t0 # ts) rl =
      (\<lparr>allowed = True, remaining = maxRequests rl - 1, resultResetTime = ?R\<rparr> # fst (checks i ts ?rl1),
       snd (checks i ts ?rl1))"
    using first by (simp add: split_beta)
  have len: "length (fst (checks i ts' rl')) = length ts'" for ts' rl'
    by (induction ts' arbitrary: rl') (auto simp: split_beta)
  have final: "limits (snd (checks i (t0 # ts) rl)) i =
        Some \<lparr>count = maxRequests rl, resetTime = ?R\<rparr>"
    using rest H unfold by simp
  have mx: "maxRequests (snd (checks i (t0 # ts) rl)) = maxRequests rl"
    using rest unfold by simp
  have denied: "isAllowed t' i (snd (checks i (t0 # ts) rl)) =
      (\<lparr>allowed = False, remaining = 0, resultResetTime = ?R\<rparr>, snd (checks i (t0 # ts) rl))"
    using isAllowed_denied[OF final, of t'] H mx by simp
  show "\<forall>r\<in>set (fst (checks i (t0 # ts) rl)). allowed r"
    using rest unfold by simp
  show "length (fst (checks i (t0 # ts) rl)) = nat (maxRequests rl)"
  proof -
    have "length (fst (checks i (t0 # ts) rl)) = Suc (length ts)"
      using len[of "t0 # ts" rl] by (simp del: checks.simps)
    moreover have "Suc (length ts) = nat (maxRequests rl)" using H by linarith
    ultimately show ?thesis by simp
  qed
  show "fst (isAllowed t' i (snd (checks i (t0 # ts) rl))) =
        \<lparr>allowed = False, remaining = 0, resultResetTime = t0 + windowMs rl\<rparr>"
    using denied by simp
  show "snd (isAllowed t' i (snd (checks i (t0 # ts) rl))) = snd (checks i (t0 # ts) rl)"
    using denied by simp
  show "limits (snd (checks i (t0 # ts) rl)) i =
        Some \<lparr>count = maxRequests rl, resetTime = t0 + windowMs rl\<rparr>"
    by (rule final)
qed

theorem C1_fixed_window_witness:
  "limits (newRateLimiter 3 60000) ''10.0.0.1'' = None \<and>
   fst (isAllowed 1000 ''10.0.0.1'' (newRateLimiter 3 60000)) =
     \<lparr>allowed = True, remaining = 2, resultResetTime = 61000\<rparr> \<and>
   limits (snd (isAllowed 1000 ''10.0.0.1'' (newRateLimiter 3 60000))) ''10.0.0.1'' =
     Some \<lparr>count = 1, resetTime = 61000\<rparr> \<and>
   (1::int) \<le> maxRequests (newRateLimiter 3 60000) \<and>
   int (length [2000, 61000::int]) = maxRequests (newRateLimiter 3 60000) - 1 \<and>
   (2000::int) \<le> 1000 + windowMs (newRateLimiter 3 60000) \<and>
   (61000::int) \<le> 1000 + windowMs (newRateLimiter 3 60000) \<and>
   map allowed (fst (checks ''10.0.0.1'' [1000, 2000, 61000] (newRateLimiter 3 60000))) =
     [True, True, True] \<and>
   fst (isAllowed 61000 ''10.0.0.1''
          (snd (checks ''10.0.0.1'' [1000, 2000, 61000] (newRateLimiter 3 60000)))) =
     \<lparr>allowed = False, remaining = 0, resultResetTime = 61000\<rparr> \<and>
   limits (snd (isAllowed 61000 ''10.0.0.1''
          (snd (checks ''10.0.0.1'' [1000, 2000, 61000] (newRateLimiter 3 60000))))) ''10.0.0.1'' =
     Some \<lparr>count = 3, resetTime = 61000\<rparr>"
  using C1_fixed_window [of "newRateLimiter 3 60000" "''10.0.0.1''" 1000 "[2000, 61000]" 61000]
  by (simp add: newRateLimiter_def isAllowed_def Let_def)

lemma applyOp_inv:
  assumes "1 \<le> maxRequests rl" "quotaInv rl"
  shows "quotaInv (applyOp op rl) \<and> maxRequests (applyOp op rl) = maxRequests rl"
proof (cases op)
  case (IsAllowed now i)
  have "quotaInv (snd (isAllowed now i rl))"
    unfolding quotaInv_def
  proof (intro allI impI)
    fix key entry
    assume L: "limits (snd (isAllowed now i rl)) key = Some entry"
    have inv_at: "1 \<le> count x \<and> count x \<le> maxRequests rl" if "limits rl k = Some x" for k x
      using assms(2) that by (simp add: quotaInv_def)
    have mx: "maxRequests (snd (isAllowed now i rl)) = maxRequests rl"
      by (simp add: isAllowed_def Let_def split: option.splits)
    from L consider
        (old) "limits rl key = Some entry"
      | (restart) "entry = \<lparr>count = 1, resetTime = now + windowMs rl\<rparr>"
      | (incr) e where "limits rl i = Some e" "count e < maxRequests rl"
                       "entry = e\<lparr>count := count e + 1\<rparr>"
      by (auto simp: isAllowed_def Let_def split: option.splits if_splits)
    then show "1 \<le> count entry \<and> count entry \<le> maxRequests (snd (isAllowed now i rl))"
    proof cases
      case old
      then show ?thesis using inv_at mx by simp
    next
      case restart
      then show ?thesis using assms(1) mx by simp
    next
      case incr
      then show ?thesis using inv_at[OF incr(1)] mx by simp
    qed
  qed
  moreover have "maxRequests (snd (isAllowed now i rl)) = maxRequests rl"
    by (simp add: isAllowed_def Let_def split: option.splits)
  ultimately show ?thesis using IsAllowed by simp
next
  case (Cleanup now)
  then show ?thesis using assms
    by (auto simp: quotaInv_def cleanup_def split: option.splits if_splits)
next
  case (GetCurrentLimit now i)
  then show ?thesis using assms
    by (auto simp: quotaInv_def getCurrentLimit_def split: option.splits if_splits)
next
  case ResetLimits
  then show ?thesis using assms by (simp add: quotaInv_def resetLimits_def)
qed

lemma applyOps_inv:
  "1 \<le> maxRequests rl \<Longrightarrow> quotaInv rl \<Longrightarrow>
     quotaInv (applyOps ops rl) \<and> maxRequests (applyOps ops rl) = maxRequests rl"
proof (induction ops arbitrary: rl)
  case Nil
  then show ?case by simp
next
  case (Cons op ops)
  from applyOp_inv[OF Cons.prems] have a: "quotaInv (applyOp op rl)"
    and b: "maxRequests (applyOp op rl) = maxRequests rl" by simp_all
  from Cons.IH[of "applyOp op rl"] a b Cons.prems(1) show ?case by simp
qed

lemma remaining_nonneg:
  assumes "1 \<le> maxRequests rl" "quotaInv rl"
  shows "0 \<le> remaining (fst (isAllowed now i rl))"
proof (cases "limits rl i")
  case None
  then show ?thesis using assms by (simp add: isAllowed_def Let_def)
next
  case (Some e)
  then have "1 \<le> count e \<and> count e \<le> maxRequests rl"
    using assms(2) by (simp add: quotaInv_def)
  then show ?thesis using Some assms(1) by (simp add: isAllowed_def Let_def)
qed

text \<open>
  Claim C10.  With a ceiling of at least 1, every stored entry satisfies
  \<open>1 \<le> count \<le> ceiling\<close>: the freshly constructed limiter satisfies it, every run of
  \<open>isAllowed\<close>, \<open>cleanup\<close>, \<open>getCurrentLimit\<close> and \<open>resetLimits\<close> in any order preserves it
  (and leaves the ceiling alone), and the \<open>remaining\<close> value that \<open>isAllowed\<close> returns in any
  such state is never negative.
\<close>

theorem C10_quota_invariant:
  "quotaInv (newRateLimiter m w) \<and>
   (1 \<le> maxRequests rl \<and> quotaInv rl \<longrightarrow>
      quotaInv (applyOps ops rl) \<and>
      maxRequests (applyOps ops rl) = maxRequests rl \<and>
      0 \<le> remaining (fst (isAllowed now i (applyOps ops rl))))"
proof (intro conjI impI)
  show "quotaInv (newRateLimiter m w)"
    by (simp add: quotaInv_def newRateLimiter_def)
next
  assume H: "1 \<le> maxRequests rl \<and> quotaInv rl"
  then have a: "1 \<le> maxRequests rl" and b: "quotaInv rl" by simp_all
  from applyOps_inv[OF a b, of ops]
  show "quotaInv (applyOps ops rl)" and mx: "maxRequests (applyOps ops rl) = maxRequests rl"
    by simp_all
  show "0 \<le> remaining (fst (isAllowed now i (applyOps ops rl)))"
    by (rule remaining_nonneg) (use applyOps_inv[OF a b, of ops] a in simp_all)
qed

theorem C10_quota_invariant_witness:
  "(1::int) \<le> maxRequests (newRateLimiter 2 60000) \<and>
   quotaInv (newRateLimiter 2 60000) \<and>
   limits (applyOps [IsAllowed 0 ''a'', IsAllowed 5 ''b'', IsAllowed 7 ''a'', IsAllowed 8 ''a'',
                     Cleanup 9, GetCurrentLimit 10 ''a'']
             (newRateLimiter 2 60000)) ''a'' = Some \<lparr>count = 2, resetTime = 60000\<rparr> \<and>
   quotaInv (applyOps [IsAllowed 0 ''a'', IsAllowed 5 ''b'', IsAllowed 7 ''a'', IsAllowed 8 ''a'',
                     Cleanup 9, GetCurrentLimit 10 ''a'']
             (newRateLimiter 2 60000)) \<and>
   remaining (fst (isAllowed 11 ''a''
     (applyOps [IsAllowed 0 ''a'', IsAllowed 5 ''b'', IsAllowed 7 ''a'', IsAllowed 8 ''a'',
                Cleanup 9, GetCurrentLimit 10 ''a'']
             (newRateLimiter 2 60000)))) = 0"
  using C10_quota_invariant [of 2 60000 "newRateLimiter 2 60000"
     "[IsAllowed 0 ''a'', IsAllowed 5 ''b'', IsAllowed 7 ''a'', IsAllowed 8 ''a'',
       Cleanup 9, GetCurrentLimit 10 ''a'']" 11 "''a''"]
  by (simp add: newRateLimiter_def isAllowed_def cleanup_def getCurrentLimit_def Let_def)

section \<open>Properties of the content safety evaluator\<close>

lemma checkPattern_score:
  "var_score (checkPattern c cat p v) = var_score v - (if testWords p c then 20 else 0)"
  by (simp add: checkPattern_def)

lemma checkPatternList_vars:
  "checkPatternList c cat pats v =
     (let hits = filter (\<lambda>p. testWords p c) pats
      in v\<lparr>var_flagged := var_flagged v \<or> hits \<noteq> [],
            var_score := var_score v - 20 * int (length hits),
            var_issues := var_issues v @ map (\<lambda>p. ''Contains '' @ cat @ '' content'') hits,
            var_suggestions := var_suggestions v @ concat (map (\<lambda>p. categorySuggestion cat) hits)\<rparr>)"
proof (induction pats arbitrary: v)
  case Nil
  then show ?case by simp
next
  case (Cons p pats)
  show ?case
    by (simp add: Cons.IH checkPattern_def Let_def)
qed

lemma checkCategories_vars:
  "checkCategories c tbl v =
     (let hits = filter (\<lambda>(cat, p). testWords p c)
                   (concat (map (\<lambda>(cat, pats). map (Pair cat) pats) tbl))
      in v\<lparr>var_flagged := var_flagged v \<or> hits \<noteq> [],
            var_score := var_score v - 20 * int (length hits),
            var_issues := var_issues v @ map (\<lambda>(cat, p). ''Contains '' @ cat @ '' content'') hits,
            var_suggestions := var_suggestions v @ concat (map (\<lambda>(cat, p). categorySuggestion cat) hits)\<rparr>)"
proof (induction tbl arbitrary: v)
  case Nil
  then show ?case by simp
next
  case (Cons cp tbl)
  obtain cat pats where cp: "cp = (cat, pats)" by (cases cp)
  have f: "filter (\<lambda>(cat, p). testWords p c) (map (Pair cat) pats) =
           map (Pair cat) (filter (\<lambda>p. testWords p c) pats)"
    by (induction pats) auto
  show ?case
    unfolding cp
    by (simp add: Cons.IH checkPatternList_vars Let_def f comp_def algebra_simps)
qed



lemma checkLength_vars:
  "var_score (checkLength c v) = var_score v - lengthDeduction c"
  "var_flagged (checkLength c v) = var_flagged v"
  "\<exists>xs. var_issues (checkLength c v) = var_issues v @ xs"
  "\<exists>xs. var_suggestions (checkLength c v) = var_suggestions v @ xs"
  by (simp_all add: checkLength_def lengthDeduction_def Let_def)

lemma checkRelevance_vars:
  "var_score (checkRelevance (toLowerCase c) v) = var_score v - relevanceDeduction c"
  "var_flagged (checkRelevance (toLowerCase c) v) = var_flagged v"
  "\<exists>xs. var_issues (checkRelevance (toLowerCase c) v) = var_issues v @ xs"
  "\<exists>xs. var_suggestions (checkRelevance (toLowerCase c) v) = var_suggestions v @ xs"
  by (simp_all add: checkRelevance_def relevanceDeduction_def)

lemma checkCategories_table:
  "var_score (checkCategories c INAPPROPRIATE_PATTERNS v) =
     var_score v - 20 * int (length (matchedMatchers c))"
  "var_flagged (checkCategories c INAPPROPRIATE_PATTERNS v) =
     (var_flagged v \<or> matchedMatchers c \<noteq> [])"
  "var_issues (checkCategories c INAPPROPRIATE_PATTERNS v) =
     var_issues v @ map (\<lambda>(cat, p). ''Contains '' @ cat @ '' content'') (matchedMatchers c)"
  "var_suggestions (checkCategories c INAPPROPRIATE_PATTERNS v) =
     var_suggestions v @ concat (map (\<lambda>(cat, p). categorySuggestion cat) (matchedMatchers c))"
  unfolding checkCategories_vars matchedMatchers_def allMatchers_def Let_def
  by simp_all

lemma checkContentSafety_fields:
  "safety_score (checkContentSafety c) =
     max 0 (100 - 20 * int (length (matchedMatchers c)) - lengthDeduction c - relevanceDeduction c)"
  "safe (checkContentSafety c) \<longleftrightarrow>
     100 - 20 * int (length (matchedMatchers c)) - lengthDeduction c - relevanceDeduction c \<ge> 70"
  "flagged (checkContentSafety c) \<longleftrightarrow> matchedMatchers c \<noteq> []"
  "\<exists>xs. safety_issues (checkContentSafety c) =
     map (\<lambda>(cat, p). ''Contains '' @ cat @ '' content'') (matchedMatchers c) @ xs"
  "\<exists>xs. safety_suggestions (checkContentSafety c) =
     concat (map (\<lambda>(cat, p). categorySuggestion cat) (matchedMatchers c)) @ xs"
proof -
  let ?v0 = "\<lparr>var_score = 100, var_flagged = False, var_issues = [], var_suggestions = []\<rparr>"
  let ?v1 = "checkCategories c INAPPROPRIATE_PATTERNS ?v0"
  let ?v2 = "checkLength c ?v1"
  let ?v3 = "checkRelevance (toLowerCase c) ?v2"
  have r: "checkContentSafety c =
      \<lparr>safe = (var_score ?v3 \<ge> 70), flagged = var_flagged ?v3,
       categories =
            \<lparr>cat_violence = testIgnoreCase ''violence'' c,
             cat_sexual = testIgnoreCase ''sexual'' c,
             cat_hate = testIgnoreCase ''hate'' c,
             cat_inappropriate = testIgnoreCase ''inappropriate'' c\<rparr>,
       safety_score = max 0 (var_score ?v3),
       safety_issues = var_issues ?v3, safety_suggestions = var_suggestions ?v3\<rparr>"
    unfolding checkContentSafety_def Let_def ..
  have sc: "var_score ?v3 =
      100 - 20 * int (length (matchedMatchers c)) - lengthDeduction c - relevanceDeduction c"
    unfolding checkRelevance_vars checkLength_vars checkCategories_table by simp
  have fl: "var_flagged ?v3 \<longleftrightarrow> matchedMatchers c \<noteq> []"
    unfolding checkRelevance_vars checkLength_vars checkCategories_table by simp
  obtain xs where xs: "var_issues ?v2 = var_issues ?v1 @ xs"
    using checkLength_vars(3) by blast
  obtain ys where ys: "var_issues ?v3 = var_issues ?v2 @ ys"
    using checkRelevance_vars(3) by blast
  obtain xs' where xs': "var_suggestions ?v2 = var_suggestions ?v1 @ xs'"
    using checkLength_vars(4) by blast
  obtain ys' where ys': "var_suggestions ?v3 = var_suggestions ?v2 @ ys'"
    using checkRelevance_vars(4) by blast
  show "safety_score (checkContentSafety c) =
     max 0 (100 - 20 * int (length (matchedMatchers c)) - lengthDeduction c - relevanceDeduction c)"
    unfolding r using sc by simp
  show "safe (checkContentSafety c) \<longleftrightarrow>
     100 - 20 * int (length (matchedMatchers c)) - lengthDeduction c - relevanceDeduction c \<ge> 70"
    unfolding r using sc by simp
  show "flagged (checkContentSafety c) \<longleftrightarrow> matchedMatchers c \<noteq> []"
    unfolding r using fl by simp
  have "var_issues ?v3 =
     map (\<lambda>(cat, p). ''Contains '' @ cat @ '' content'') (matchedMatchers c) @ (xs @ ys)"
    unfolding ys xs checkCategories_table by simp
  then show "\<exists>xs. safety_issues (checkContentSafety c) =
     map (\<lambda>(cat, p). ''Contains '' @ cat @ '' content'') (matchedMatchers c) @ xs"
    unfolding r by auto
  have "var_suggestions ?v3 =
     concat (map (\<lambda>(cat, p). categorySuggestion cat) (matchedMatchers c)) @ (xs' @ ys')"
    unfolding ys' xs' checkCategories_table by simp
  then show "\<exists>xs. safety_suggestions (checkContentSafety c) =
     concat (map (\<lambda>(cat, p). categorySuggestion cat) (matchedMatchers c)) @ xs"
    unfolding r by auto
qed

lemma startsWith_append: "startsWith a k \<Longrightarrow> startsWith (a @ b) k"
  by (induction a k rule: startsWith.induct) auto

lemma includes_str_append: "includes_str a k \<Longrightarrow> includes_str (a @ b) k"
proof (induction a)
  case Nil
  then show ?case by (cases b) auto
next
  case (Cons c cs)
  then show ?case using startsWith_append[of "c # cs" k b] by auto
qed

lemma relevance_append:
  "checkMythologicalRelevance (toLowerCase t) \<Longrightarrow> checkMythologicalRelevance (toLowerCase (t @ p))"
  unfolding checkMythologicalRelevance_def toLowerCase_def list_ex_iff
  using includes_str_append by auto

lemma relevanceDeduction_append:
  "checkMythologicalRelevance (toLowerCase t) \<or> \<not> checkMythologicalRelevance (toLowerCase (t @ p))
   \<Longrightarrow> relevanceDeduction (t @ p) = relevanceDeduction t"
  using relevance_append[of t p] by (auto simp: relevanceDeduction_def)

lemma splitWhiteSpaceFrom_nonempty: "1 \<le> length (splitWhiteSpaceFrom r cur s)"
  by (induction s arbitrary: r cur) auto

lemma splitWhiteSpaceFrom_append:
  "length (splitWhiteSpaceFrom r cur t) \<le> length (splitWhiteSpaceFrom r cur (t @ p))"
proof (induction t arbitrary: r cur)
  case Nil
  then show ?case using splitWhiteSpaceFrom_nonempty[of r cur p] by simp
next
  case (Cons c cs)
  then show ?case by simp
qed

lemma lengthDeduction_append: "lengthDeduction t - 10 \<le> lengthDeduction (t @ p)"
  using splitWhiteSpaceFrom_append[of False "[]" t p]
  by (auto simp: lengthDeduction_def splitWhiteSpace_def Let_def)

lemma lastCharOr_Cons: "lastCharOr prev (c # cs) = lastCharOr (Some c) cs"
  by (simp add: lastCharOr_def)

lemma testWordsFrom_suffix:
  "testWordsFrom ws (lastCharOr prev a) b \<Longrightarrow> testWordsFrom ws prev (a @ b)"
proof (induction a arbitrary: prev)
  case Nil
  then show ?case by (simp add: lastCharOr_def)
next
  case (Cons c cs)
  from Cons.prems have "testWordsFrom ws (lastCharOr (Some c) cs) b"
    by (simp add: lastCharOr_Cons)
  then have "testWordsFrom ws (Some c) (cs @ b)" by (rule Cons.IH)
  then show ?case by simp
qed

lemma testWords_phrase_kept:
  assumes "\<not> isWordChar sep" "testWords ws (sep # phrase)"
  shows "testWords ws (content @ sep # phrase)"
proof -
  have "\<not> matchWordHere None (sep # phrase) w" for w
    using assms(1) by (simp add: matchWordHere_def wordBoundary_def isWordCharAt_def headChar_def)
  then have "\<not> list_ex (matchWordHere None (sep # phrase)) ws"
    by (simp add: list_ex_iff)
  with assms(2) have "testWordsFrom ws (Some sep) phrase"
    by (simp add: testWords_def)
  then have "testWordsFrom ws (lastCharOr None (content @ [sep])) phrase"
    by (simp add: lastCharOr_def)
  then have "testWordsFrom ws None ((content @ [sep]) @ phrase)"
    by (rule testWordsFrom_suffix)
  then show ?thesis by (simp add: testWords_def)
qed

lemma startsWithIgnoreCase_append:
  "startsWithIgnoreCase s w \<Longrightarrow> startsWithIgnoreCase (s @ x) w"
  by (induction s w rule: startsWithIgnoreCase.induct) auto

lemma startsWithIgnoreCase_length:
  "startsWithIgnoreCase s w \<Longrightarrow> length w \<le> length s"
  by (induction s w rule: startsWithIgnoreCase.induct) auto

lemma matchWordHere_append:
  assumes "matchWordHere prev s w" "w \<noteq> []" "\<not> isWordChar sep"
  shows "matchWordHere prev (s @ sep # rest) w"
proof -
  from assms(1) have sw: "startsWithIgnoreCase s w"
    and lb: "wordBoundary prev (headChar s)"
    and rb: "wordBoundary (lastCharOr prev (take (length w) s)) (headChar (drop (length w) s))"
    by (simp_all add: matchWordHere_def)
  have len: "length w \<le> length s" using sw by (rule startsWithIgnoreCase_length)
  with assms(2) have ne: "s \<noteq> []" by auto
  have h: "headChar (s @ sep # rest) = headChar s"
    using ne by (cases s) (simp_all add: headChar_def)
  have t: "take (length w) (s @ sep # rest) = take (length w) s" using len by simp
  have d: "isWordCharAt (headChar (drop (length w) (s @ sep # rest))) =
           isWordCharAt (headChar (drop (length w) s))"
  proof (cases "drop (length w) s")
    case Nil
    then have "length s \<le> length w" by simp
    with len have "length w = length s" by simp
    then show ?thesis using Nil assms(3) by (simp add: headChar_def isWordCharAt_def)
  next
    case (Cons a as)
    then have "drop (length w) (s @ sep # rest) = a # as @ sep # rest" using len by simp
    then show ?thesis using Cons by (simp add: headChar_def)
  qed
  show ?thesis
    unfolding matchWordHere_def h t
    using sw lb rb d startsWithIgnoreCase_append[OF sw] by (simp add: wordBoundary_def)
qed

lemma testWordsFrom_text_kept:
  assumes "\<forall>w\<in>set ws. w \<noteq> []" "\<not> isWordChar sep"
  shows "testWordsFrom ws prev content \<Longrightarrow> testWordsFrom ws prev (content @ sep # rest)"
proof (induction content arbitrary: prev)
  case Nil
  then obtain w where "w \<in> set ws" "matchWordHere prev [] w"
    by (auto simp: list_ex_iff)
  then have "startsWithIgnoreCase [] w" by (simp add: matchWordHere_def)
  then have "w = []" by (cases w) auto
  with \<open>w \<in> set ws\<close> assms(1) show ?case by blast
next
  case (Cons c cs)
  from Cons.prems consider
      (here) w where "w \<in> set ws" "matchWordHere prev (c # cs) w"
    | (later) "testWordsFrom ws (Some c) cs"
    by (auto simp: list_ex_iff)
  then show ?case
  proof cases
    case here
    then have "matchWordHere prev ((c # cs) @ sep # rest) w"
      using matchWordHere_append assms by blast
    with here(1) show ?thesis by (auto simp: list_ex_iff)
  next
    case later
    then show ?thesis using Cons.IH by simp
  qed
qed

lemma allMatchers_words_nonempty:
  "(category, pattern) \<in> set allMatchers \<Longrightarrow> w \<in> set pattern \<Longrightarrow> w \<noteq> []"
  by (auto simp: allMatchers_def INAPPROPRIATE_PATTERNS_def)

lemma filter_length_strict:
  assumes "\<forall>x\<in>set xs. P x \<longrightarrow> Q x" "y \<in> set xs" "Q y" "\<not> P y"
  shows "length (filter P xs) < length (filter Q xs)"
  using assms
proof (induction xs)
  case Nil
  then show ?case by simp
next
  case (Cons x xs)
  have mono: "length (filter P xs) \<le> length (filter Q xs)"
    using Cons.prems(1) by (induction xs) auto
  show ?case
  proof (cases "y = x")
    case True
    then show ?thesis using Cons.prems mono by simp
  next
    case False
    then have "length (filter P xs) < length (filter Q xs)"
      using Cons by simp
    then show ?thesis using Cons.prems(1) by auto
  qed
qed


lemma matchedMatchers_append:
  assumes sep: "\<not> isWordChar sep"
    and m: "(category, pattern) \<in> set allMatchers"
    and new: "testWords pattern (sep # phrase)" "\<not> testWords pattern content"
  shows "length (matchedMatchers content) < length (matchedMatchers (content @ sep # phrase))"
  unfolding matchedMatchers_def
proof (rule filter_length_strict[where y = "(category, pattern)"])
  show "\<forall>x\<in>set allMatchers.
          (case x of (category, pattern) \<Rightarrow> testWords pattern content) \<longrightarrow>
          (case x of (category, pattern) \<Rightarrow> testWords pattern (content @ sep # phrase))"
  proof (intro ballI impI)
    fix x assume x: "x \<in> set allMatchers"
      and hit: "case x of (category, pattern) \<Rightarrow> testWords pattern content"
    obtain c p where xp: "x = (c, p)" by (cases x)
    have "\<forall>w\<in>set p. w \<noteq> []" using allMatchers_words_nonempty x xp by blast
    then have "testWords p (content @ sep # phrase)"
      using hit xp sep testWordsFrom_text_kept[of p sep None content phrase]
      by (simp add: testWords_def)
    then show "case x of (category, pattern) \<Rightarrow> testWords pattern (content @ sep # phrase)"
      using xp by simp
  qed
  show "(category, pattern) \<in> set allMatchers" by (rule m)
  show "case (category, pattern) of (category, pattern) \<Rightarrow> testWords pattern (content @ sep # phrase)"
    using testWords_phrase_kept[OF sep new(1)] by simp
  show "\<not> (case (category, pattern) of (category, pattern) \<Rightarrow> testWords pattern content)"
    using new(2) by simp
qed

lemma filter_length_mono:
  "\<forall>x\<in>set xs. P x \<longrightarrow> Q x \<Longrightarrow> length (filter P xs) \<le> length (filter Q xs)"
  by (induction xs) auto

lemma matchedMatchers_kept:
  assumes sep: "\<not> isWordChar sep"
  shows "length (matchedMatchers content) \<le> length (matchedMatchers (content @ sep # phrase))"
  unfolding matchedMatchers_def
proof (rule filter_length_mono, intro ballI impI)
  fix x assume x: "x \<in> set allMatchers"
    and hit: "case x of (category, pattern) \<Rightarrow> testWords pattern content"
  obtain c p where xp: "x = (c, p)" by (cases x)
  have "\<forall>w\<in>set p. w \<noteq> []" using allMatchers_words_nonempty x xp by blast
  then have "testWords p (content @ sep # phrase)"
    using hit xp sep testWordsFrom_text_kept[of p sep None content phrase]
    by (simp add: testWords_def)
  then show "case x of (category, pattern) \<Rightarrow> testWords pattern (content @ sep # phrase)"
    using xp by simp
qed

lemma lengthDeduction_kept:
  assumes "\<not> (length (splitWhiteSpace t) < 3 \<and> 3 \<le> length (splitWhiteSpace (t @ p)) \<and>
              length (splitWhiteSpace (t @ p)) \<le> 50)"
  shows "lengthDeduction t \<le> lengthDeduction (t @ p)"
  using assms splitWhiteSpaceFrom_append[of False "[]" t p]
  by (auto simp: lengthDeduction_def splitWhiteSpace_def Let_def)

text \<open>
  Claim C3 (monotonicity of the safety score under an appended unsafe phrase), as amended.
  As stated the claim fails in three ways, each shown by the counterexample below: a
  matcher deducts once however often it matches, so the appended words can lift the
  too-short deduction without adding a deduction; a phrase glued to the last word of the
  text can undo a match of the text; and the phrase can supply the first mythological
  keyword.  What holds, for every text, passing or not: when the phrase is appended after
  a non-word character (a space, say), the phrase with that separator matches a matcher,
  and the appended text brings no first mythological keyword, the score does not
  increase, provided the appended words do not lift the too-short deduction (the text
  has at least 3 words, or the result has fewer than 3 or more than 50) or the matcher
  is one that the text does not match already.  In the latter case a passing text loses
  at least 10.
\<close>

theorem C3_score_after_separated_phrase:
  assumes "\<not> isWordChar sep"
    and "(category, pattern) \<in> set allMatchers"
    and "testWords pattern (sep # phrase)"
    and "checkMythologicalRelevance (toLowerCase content) \<or>
         \<not> checkMythologicalRelevance (toLowerCase (content @ sep # phrase))"
    and "\<not> (length (splitWhiteSpace content) < 3 \<and>
            3 \<le> length (splitWhiteSpace (content @ sep # phrase)) \<and>
            length (splitWhiteSpace (content @ sep # phrase)) \<le> 50) \<or>
         \<not> testWords pattern content"
  shows "safety_score (checkContentSafety (content @ sep # phrase))
           \<le> safety_score (checkContentSafety content) \<and>
         (safe (checkContentSafety content) \<and> \<not> testWords pattern content \<longrightarrow>
            safety_score (checkContentSafety (content @ sep # phrase))
              \<le> safety_score (checkContentSafety content) - 10)"
proof -
  let ?new = "content @ sep # phrase"
  have h: "int (length (matchedMatchers content)) \<le> int (length (matchedMatchers ?new))"
    using matchedMatchers_kept[OF assms(1)] by simp
  have h': "\<not> testWords pattern content \<Longrightarrow>
      int (length (matchedMatchers content)) + 1 \<le> int (length (matchedMatchers ?new))"
  proof -
    assume "\<not> testWords pattern content"
    with assms(1-3) have "length (matchedMatchers content) < length (matchedMatchers ?new)"
      by (rule matchedMatchers_append)
    then show ?thesis by simp
  qed
  have l: "lengthDeduction content - 10 \<le> lengthDeduction ?new"
    by (rule lengthDeduction_append)
  have l': "\<not> (length (splitWhiteSpace content) < 3 \<and>
            3 \<le> length (splitWhiteSpace ?new) \<and> length (splitWhiteSpace ?new) \<le> 50) \<Longrightarrow>
      lengthDeduction content \<le> lengthDeduction ?new"
    by (rule lengthDeduction_kept)
  have r: "relevanceDeduction ?new = relevanceDeduction content"
    by (rule relevanceDeduction_append[OF assms(4)])
  have first: "safety_score (checkContentSafety ?new) \<le> safety_score (checkContentSafety content)"
    using assms(5)
  proof
    assume "\<not> (length (splitWhiteSpace content) < 3 \<and>
            3 \<le> length (splitWhiteSpace ?new) \<and> length (splitWhiteSpace ?new) \<le> 50)"
    then have "lengthDeduction content \<le> lengthDeduction ?new" by (rule l')
    then show ?thesis unfolding checkContentSafety_fields using h r by auto
  next
    assume "\<not> testWords pattern content"
    then have "int (length (matchedMatchers content)) + 1 \<le> int (length (matchedMatchers ?new))"
      by (rule h')
    then show ?thesis unfolding checkContentSafety_fields using l r by auto
  qed
  have second: "safe (checkContentSafety content) \<and> \<not> testWords pattern content \<longrightarrow>
            safety_score (checkContentSafety ?new) \<le> safety_score (checkContentSafety content) - 10"
  proof
    assume a: "safe (checkContentSafety content) \<and> \<not> testWords pattern content"
    then have "int (length (matchedMatchers content)) + 1 \<le> int (length (matchedMatchers ?new))"
      using h' by blast
    then show "safety_score (checkContentSafety ?new) \<le> safety_score (checkContentSafety content) - 10"
      using a l r unfolding checkContentSafety_fields by auto
  qed
  from first second show ?thesis by blast
qed


theorem C3_score_after_separated_phrase_witness:
  "\<not> isWordChar CHR '' '' \<and>
   (''sexual'', [''sex'', ''sexual'', ''nude'', ''naked'', ''intimate'', ''romance'', ''love'', ''kiss''])
      \<in> set allMatchers \<and>
   testWords [''sex'', ''sexual'', ''nude'', ''naked'', ''intimate'', ''romance'', ''love'', ''kiss'']
      '' kiss'' \<and>
   testWords [''sex'', ''sexual'', ''nude'', ''naked'', ''intimate'', ''romance'', ''love'', ''kiss'']
      ''krishna plays with love'' \<and>
   checkMythologicalRelevance (toLowerCase ''krishna plays with love'') \<and>
   length (splitWhiteSpace ''krishna plays with love'') = 4 \<and>
   safety_score (checkContentSafety ''krishna plays with love'') = 80 \<and>
   safety_score (checkContentSafety ''krishna plays with love kiss'') = 80 \<and>
   safety_score (checkContentSafety (''krishna plays with love'' @ CHR '' '' # ''kiss''))
     \<le> safety_score (checkContentSafety ''krishna plays with love'') \<and>
   testWords [''sex'', ''sexual'', ''nude'', ''naked'', ''intimate'', ''romance'', ''love'', ''kiss'']
      '' love'' \<and>
   \<not> testWords [''sex'', ''sexual'', ''nude'', ''naked'', ''intimate'', ''romance'', ''love'', ''kiss'']
      ''krishna dances'' \<and>
   checkMythologicalRelevance (toLowerCase ''krishna dances'') \<and>
   length (splitWhiteSpace ''krishna dances'') = 2 \<and>
   safe (checkContentSafety ''krishna dances'') \<and>
   safety_score (checkContentSafety ''krishna dances'') = 90 \<and>
   safety_score (checkContentSafety ''krishna dances love'') = 80 \<and>
   safety_score (checkContentSafety (''krishna dances'' @ CHR '' '' # ''love''))
     \<le> safety_score (checkContentSafety ''krishna dances'') - 10"
proof -
  let ?sexual = "[''sex'', ''sexual'', ''nude'', ''naked'', ''intimate'', ''romance'', ''love'', ''kiss'']"
  have a: "\<not> isWordChar CHR '' ''" by code_simp
  have b: "(''sexual'', ?sexual) \<in> set allMatchers" by code_simp
  have c1: "testWords ?sexual (CHR '' '' # ''kiss'')" by code_simp
  have d1: "testWords ?sexual ''krishna plays with love''" by code_simp
  have e1: "checkMythologicalRelevance (toLowerCase ''krishna plays with love'')" by code_simp
  have w1: "length (splitWhiteSpace ''krishna plays with love'') = 4" by code_simp
  have g1: "safety_score (checkContentSafety ''krishna plays with love'') = 80" by code_simp
  have h1: "safety_score (checkContentSafety ''krishna plays with love kiss'') = 80" by code_simp
  have c2: "testWords ?sexual (CHR '' '' # ''love'')" by code_simp
  have d2: "\<not> testWords ?sexual ''krishna dances''" by code_simp
  have e2: "checkMythologicalRelevance (toLowerCase ''krishna dances'')" by code_simp
  have w2: "length (splitWhiteSpace ''krishna dances'') = 2" by code_simp
  have f2: "safe (checkContentSafety ''krishna dances'')" by code_simp
  have g2: "safety_score (checkContentSafety ''krishna dances'') = 90" by code_simp
  have h2: "safety_score (checkContentSafety ''krishna dances love'') = 80" by code_simp
  have long: "\<not> (length (splitWhiteSpace ''krishna plays with love'') < 3 \<and>
      3 \<le> length (splitWhiteSpace (''krishna plays with love'' @ CHR '' '' # ''kiss'')) \<and>
      length (splitWhiteSpace (''krishna plays with love'' @ CHR '' '' # ''kiss'')) \<le> 50)"
    unfolding w1 by simp
  from C3_score_after_separated_phrase[OF a b c1 disjI1[OF e1] disjI1[OF long]]
  have r1: "safety_score (checkContentSafety (''krishna plays with love'' @ CHR '' '' # ''kiss''))
     \<le> safety_score (checkContentSafety ''krishna plays with love'')" by blast
  from C3_score_after_separated_phrase[OF a b c2 disjI1[OF e2] disjI2[OF d2]] f2 d2
  have r2: "safety_score (checkContentSafety (''krishna dances'' @ CHR '' '' # ''love''))
     \<le> safety_score (checkContentSafety ''krishna dances'') - 10" by blast
  from a b c1 d1 e1 w1 g1 h1 r1 c2 d2 e2 w2 f2 g2 h2 r2 show ?thesis by blast
qed

text \<open>
  The claim as stated fails at three passing texts, each breaking one hypothesis of the
  theorem above and no other.  At \<open>krishna love\<close> (two words, score 70) and the phrase
  \<open> love\<close> the third word lifts the too-short deduction and the matcher was matched
  already: 80.  At \<open>krishna war\<close> (score 70) and the phrase \<open>s kill\<close>, appended without a
  separator, \<open>wars\<close> no longer matches, so one deduction replaces another while the
  too-short deduction goes: 80.  At \<open>hello world friend\<close> (score 75) and the phrase
  \<open> karma love\<close> the phrase brings the first mythological keyword: 80.
\<close>

theorem C3_monotonicity_counterexample:
  "safe (checkContentSafety ''krishna love'') \<and>
   safety_score (checkContentSafety ''krishna love'') = 70 \<and>
   matchesUnsafeCategory '' love'' \<and>
   length (splitWhiteSpace ''krishna love'') = 2 \<and>
   length (splitWhiteSpace (''krishna love'' @ '' love'')) = 3 \<and>
   safety_score (checkContentSafety (''krishna love'' @ '' love'')) = 80 \<and>
   safe (checkContentSafety ''krishna war'') \<and>
   safety_score (checkContentSafety ''krishna war'') = 70 \<and>
   matchesUnsafeCategory ''s kill'' \<and>
   isWordChar CHR ''s'' \<and>
   safety_score (checkContentSafety (''krishna war'' @ ''s kill'')) = 80 \<and>
   safe (checkContentSafety ''hello world friend'') \<and>
   safety_score (checkContentSafety ''hello world friend'') = 75 \<and>
   matchesUnsafeCategory '' karma love'' \<and>
   checkMythologicalRelevance (toLowerCase (''hello world friend'' @ '' karma love'')) \<and>
   safety_score (checkContentSafety (''hello world friend'' @ '' karma love'')) = 80"
  by code_simp

text \<open>
  Claim C4 (deductions of the safety evaluator), as amended.  The deduction is per matcher,
  not per category: every matcher that the text matches takes 20 points and appends one
  issue and one suggestion of its category, in loop order.  The violence category has two
  matchers, so it takes 20 or 40 points and appends one or two (equal) pairs; the other
  categories have one matcher each.  The deductions add up with those for length and
  relevance, the reported score is floored at 0, and \<open>safe\<close> holds exactly when that score
  is at least 70.
\<close>

theorem C4_deduction_per_matcher:
  "map fst allMatchers = [''violence'', ''violence'', ''sexual'', ''hate'', ''inappropriate''] \<and>
   safety_score (checkContentSafety c) =
     max 0 (100 - 20 * int (length (matchedMatchers c)) - lengthDeduction c - relevanceDeduction c) \<and>
   safe (checkContentSafety c) = (safety_score (checkContentSafety c) \<ge> 70) \<and>
   flagged (checkContentSafety c) = (matchedMatchers c \<noteq> []) \<and>
   take (length (matchedMatchers c)) (safety_issues (checkContentSafety c)) =
     map (\<lambda>(category, pattern). ''Contains '' @ category @ '' content'') (matchedMatchers c) \<and>
   take (length (matchedMatchers c)) (safety_suggestions (checkContentSafety c)) =
     concat (map (\<lambda>(category, pattern). categorySuggestion category) (matchedMatchers c)) \<and>
   length (concat (map (\<lambda>(category, pattern). categorySuggestion category) (matchedMatchers c))) =
     length (matchedMatchers c)"
proof -
  have cats: "map fst allMatchers = [''violence'', ''violence'', ''sexual'', ''hate'', ''inappropriate'']"
    by code_simp
  have sub: "set (matchedMatchers c) \<subseteq> set allMatchers"
    by (auto simp: matchedMatchers_def)
  have one: "length (categorySuggestion cat) = 1" if "(cat, p) \<in> set allMatchers" for cat p
  proof -
    from that have "cat \<in> set (map fst allMatchers)" by force
    then have "cat = ''violence'' \<or> cat = ''sexual'' \<or> cat = ''hate'' \<or> cat = ''inappropriate''"
      unfolding cats by auto
    then show ?thesis unfolding categorySuggestion_def by auto
  qed
  have len: "length (concat (map (\<lambda>(category, pattern). categorySuggestion category) hs)) = length hs"
    if "set hs \<subseteq> set allMatchers" for hs
    using that
  proof (induction hs)
    case Nil
    then show ?case by simp
  next
    case (Cons h hs)
    obtain cat p where h: "h = (cat, p)" by (cases h)
    with Cons show ?case using one[of cat p] by simp
  qed
  obtain xs where xs: "safety_issues (checkContentSafety c) =
     map (\<lambda>(cat, p). ''Contains '' @ cat @ '' content'') (matchedMatchers c) @ xs"
    using checkContentSafety_fields(4) by blast
  obtain ys where ys: "safety_suggestions (checkContentSafety c) =
     concat (map (\<lambda>(cat, p). categorySuggestion cat) (matchedMatchers c)) @ ys"
    using checkContentSafety_fields(5) by blast
  have sc: "safety_score (checkContentSafety c) =
     max 0 (100 - 20 * int (length (matchedMatchers c)) - lengthDeduction c - relevanceDeduction c)"
    by (rule checkContentSafety_fields(1))
  have sf: "safe (checkContentSafety c) = (safety_score (checkContentSafety c) \<ge> 70)"
    unfolding checkContentSafety_fields by auto
  have fl: "flagged (checkContentSafety c) = (matchedMatchers c \<noteq> [])"
    by (rule checkContentSafety_fields(3))
  have ti: "take (length (matchedMatchers c)) (safety_issues (checkContentSafety c)) =
     map (\<lambda>(category, pattern). ''Contains '' @ category @ '' content'') (matchedMatchers c)"
    unfolding xs by simp
  have ts: "take (length (matchedMatchers c)) (safety_suggestions (checkContentSafety c)) =
     concat (map (\<lambda>(category, pattern). categorySuggestion category) (matchedMatchers c))"
    unfolding ys using len[OF sub] by simp
  from cats sc sf fl ti ts len[OF sub] show ?thesis by blast
qed

theorem C4_deduction_per_matcher_witness:
  "length (matchedMatchers ''shiva will smoke'') = 1 \<and>
   lengthDeduction ''shiva will smoke'' = 0 \<and> relevanceDeduction ''shiva will smoke'' = 0 \<and>
   safety_score (checkContentSafety ''shiva will smoke'') = 80 \<and>
   safe (checkContentSafety ''shiva will smoke'') \<and>
   flagged (checkContentSafety ''shiva will smoke'') \<and>
   safety_issues (checkContentSafety ''shiva will smoke'') = [''Contains inappropriate content''] \<and>
   safety_suggestions (checkContentSafety ''shiva will smoke'') =
     [''Keep content family-friendly and appropriate'']"
proof -
  have m: "matchedMatchers ''shiva will smoke'' =
             [(''inappropriate'', [''drug'', ''alcohol'', ''smoke'', ''drunk'', ''high''])]"
    by code_simp
  have l: "lengthDeduction ''shiva will smoke'' = 0" by code_simp
  have r: "relevanceDeduction ''shiva will smoke'' = 0" by code_simp
  have i: "safety_issues (checkContentSafety ''shiva will smoke'') = [''Contains inappropriate content'']"
    by code_simp
  have s: "safety_suggestions (checkContentSafety ''shiva will smoke'') =
     [''Keep content family-friendly and appropriate'']"
    by code_simp
  from C4_deduction_per_matcher[of "''shiva will smoke''"] m l r i s
  show ?thesis by simp
qed

text \<open>
  The claim as stated (one deduction per category, however many of its matchers match)
  fails at a text that matches both violence matchers and nothing else.
\<close>

theorem C4_one_deduction_per_category_counterexample:
  "map fst (matchedMatchers ''krishna will kill in war'') = [''violence'', ''violence''] \<and>
   lengthDeduction ''krishna will kill in war'' = 0 \<and>
   relevanceDeduction ''krishna will kill in war'' = 0 \<and>
   safety_score (checkContentSafety ''krishna will kill in war'') = 60 \<and>
   \<not> safe (checkContentSafety ''krishna will kill in war'') \<and>
   safety_issues (checkContentSafety ''krishna will kill in war'') =
     [''Contains violence content'', ''Contains violence content''] \<and>
   safety_suggestions (checkContentSafety ''krishna will kill in war'') =
     [''Consider using more peaceful language or focusing on the spiritual aspects'',
      ''Consider using more peaceful language or focusing on the spiritual aspects'']"
  by code_simp

section \<open>Properties of the provider adapter\<close>

lemma validateScriptStructure_scriptObject:
  "validateScriptStructure (scriptObject n d i) \<longleftrightarrow> n \<noteq> [] \<and> i \<noteq> []"
  by (simp add: validateScriptStructure_def scriptObject_def)

lemma validateScriptStructure_iff:
  "validateScriptStructure script \<longleftrightarrow>
     (\<exists>n d i. getProp script ''narrator_caption'' = JStr n \<and> n \<noteq> [] \<and>
              getProp script ''dialogue'' = JStr d \<and>
              getProp script ''image_description'' = JStr i \<and> i \<noteq> [])"
proof
  assume v: "validateScriptStructure script"
  then have a: "isString (getProp script ''narrator_caption'')"
    and b: "isString (getProp script ''dialogue'')"
    and c: "isString (getProp script ''image_description'')"
    and d: "stringOf (getProp script ''narrator_caption'') \<noteq> []"
    and e: "stringOf (getProp script ''image_description'') \<noteq> []"
    by (simp_all add: validateScriptStructure_def)
  from a obtain n where n: "getProp script ''narrator_caption'' = JStr n"
    by (cases "getProp script ''narrator_caption''") simp_all
  from b obtain dl where dl: "getProp script ''dialogue'' = JStr dl"
    by (cases "getProp script ''dialogue''") simp_all
  from c obtain i where i: "getProp script ''image_description'' = JStr i"
    by (cases "getProp script ''image_description''") simp_all
  from n i d e have "n \<noteq> []" "i \<noteq> []" by simp_all
  with n dl i show "\<exists>n d i. getProp script ''narrator_caption'' = JStr n \<and> n \<noteq> [] \<and>
              getProp script ''dialogue'' = JStr d \<and>
              getProp script ''image_description'' = JStr i \<and> i \<noteq> []" by blast
next
  assume "\<exists>n d i. getProp script ''narrator_caption'' = JStr n \<and> n \<noteq> [] \<and>
              getProp script ''dialogue'' = JStr d \<and>
              getProp script ''image_description'' = JStr i \<and> i \<noteq> []"
  then obtain n d i where n: "getProp script ''narrator_caption'' = JStr n" "n \<noteq> []"
    and d: "getProp script ''dialogue'' = JStr d"
    and i: "getProp script ''image_description'' = JStr i" "i \<noteq> []" by blast
  have "truthy script" using n(1) by (cases script) simp_all
  then show "validateScriptStructure script"
    using n d i by (simp add: validateScriptStructure_def)
qed

lemma scriptIncomplete_iff:
  "\<not> scriptIncomplete script \<longleftrightarrow>
     (\<exists>n d i. getProp script ''narrator_caption'' = JStr n \<and> trim n \<noteq> [] \<and>
              getProp script ''dialogue'' = JStr d \<and>
              getProp script ''image_description'' = JStr i \<and> trim i \<noteq> [])"
proof
  assume v: "\<not> scriptIncomplete script"
  then have a: "isString (getProp script ''narrator_caption'')"
    and b: "isString (getProp script ''dialogue'')"
    and c: "isString (getProp script ''image_description'')"
    and d: "trim (stringOf (getProp script ''narrator_caption'')) \<noteq> []"
    and e: "trim (stringOf (getProp script ''image_description'')) \<noteq> []"
    by (simp_all add: scriptIncomplete_def)
  from a obtain n where n: "getProp script ''narrator_caption'' = JStr n"
    by (cases "getProp script ''narrator_caption''") simp_all
  from b obtain dl where dl: "getProp script ''dialogue'' = JStr dl"
    by (cases "getProp script ''dialogue''") simp_all
  from c obtain i where i: "getProp script ''image_description'' = JStr i"
    by (cases "getProp script ''image_description''") simp_all
  from n i d e have "trim n \<noteq> []" "trim i \<noteq> []" by simp_all
  with n dl i show "\<exists>n d i. getProp script ''narrator_caption'' = JStr n \<and> trim n \<noteq> [] \<and>
              getProp script ''dialogue'' = JStr d \<and>
              getProp script ''image_description'' = JStr i \<and> trim i \<noteq> []" by blast
next
  assume "\<exists>n d i. getProp script ''narrator_caption'' = JStr n \<and> trim n \<noteq> [] \<and>
              getProp script ''dialogue'' = JStr d \<and>
              getProp script ''image_description'' = JStr i \<and> trim i \<noteq> []"
  then obtain n d i where n: "getProp script ''narrator_caption'' = JStr n" "trim n \<noteq> []"
    and d: "getProp script ''dialogue'' = JStr d"
    and i: "getProp script ''image_description'' = JStr i" "trim i \<noteq> []" by blast
  have "truthy script" using n(1) by (cases script) simp_all
  then show "\<not> scriptIncomplete script"
    using n d i by (simp add: scriptIncomplete_def)
qed

text \<open>
  Claim C2 (structural validation of a generated script), as amended.
  \<open>validateScriptStructure\<close> accepts a script exactly when its narration and its visual
  description are non-empty strings and its dialogue field is a string, empty or not; so
  it rejects every script whose narration or visual description is missing or empty, and
  also every script whose dialogue field is absent.  The inline check of the combined
  pipeline is the same with the narration and the visual description trimmed first.
\<close>

theorem C2_structural_validation:
  "(validateScriptStructure script \<longleftrightarrow>
     (\<exists>n d i. getProp script ''narrator_caption'' = JStr n \<and> n \<noteq> [] \<and>
              getProp script ''dialogue'' = JStr d \<and>
              getProp script ''image_description'' = JStr i \<and> i \<noteq> [])) \<and>
   (\<not> scriptIncomplete script \<longleftrightarrow>
     (\<exists>n d i. getProp script ''narrator_caption'' = JStr n \<and> trim n \<noteq> [] \<and>
              getProp script ''dialogue'' = JStr d \<and>
              getProp script ''image_description'' = JStr i \<and> trim i \<noteq> []))"
  using validateScriptStructure_iff scriptIncomplete_iff by blast

theorem C2_structural_validation_witness:
  "validateScriptStructure (scriptObject ''The tale unfolds.'' [] ''A temple at dawn.'') \<and>
   \<not> scriptIncomplete (scriptObject ''The tale unfolds.'' [] ''A temple at dawn.'') \<and>
   \<not> validateScriptStructure (scriptObject [] ''So it begins...'' ''A temple at dawn.'') \<and>
   \<not> validateScriptStructure (scriptObject ''The tale unfolds.'' ''So it begins...'' []) \<and>
   \<not> validateScriptStructure (JObj [(''dialogue'', JStr []), (''image_description'', JStr ''A temple at dawn.'')]) \<and>
   scriptIncomplete (scriptObject '' '' [] ''A temple at dawn.'')"
proof -
  have t: "trim ''The tale unfolds.'' \<noteq> []" "trim ''A temple at dawn.'' \<noteq> []" "trim '' '' = []"
    by code_simp+
  show ?thesis
    using C2_structural_validation[of "scriptObject ''The tale unfolds.'' [] ''A temple at dawn.''"]
      C2_structural_validation[of "scriptObject [] ''So it begins...'' ''A temple at dawn.''"]
      C2_structural_validation[of "scriptObject ''The tale unfolds.'' ''So it begins...'' []"]
      C2_structural_validation[of "JObj [(''dialogue'', JStr []), (''image_description'', JStr ''A temple at dawn.'')]"]
      C2_structural_validation[of "scriptObject '' '' [] ''A temple at dawn.''"] t
    by (simp add: scriptObject_def)
qed

text \<open>
  The claim as stated (acceptance regardless of the presence of the dialogue field) fails
  at a script with both required fields non-empty and no dialogue field.
\<close>

theorem C2_dialogue_absent_counterexample:
  "getProp (JObj [(''narrator_caption'', JStr ''The tale unfolds.''),
                  (''image_description'', JStr ''A temple at dawn.'')]) ''narrator_caption''
     = JStr ''The tale unfolds.'' \<and>
   getProp (JObj [(''narrator_caption'', JStr ''The tale unfolds.''),
                  (''image_description'', JStr ''A temple at dawn.'')]) ''image_description''
     = JStr ''A temple at dawn.'' \<and>
   getProp (JObj [(''narrator_caption'', JStr ''The tale unfolds.''),
                  (''image_description'', JStr ''A temple at dawn.'')]) ''dialogue'' = JUndefined \<and>
   \<not> validateScriptStructure
        (JObj [(''narrator_caption'', JStr ''The tale unfolds.''),
               (''image_description'', JStr ''A temple at dawn.'')]) \<and>
   scriptIncomplete
        (JObj [(''narrator_caption'', JStr ''The tale unfolds.''),
               (''image_description'', JStr ''A temple at dawn.'')])"
  by (simp add: validateScriptStructure_def scriptIncomplete_def)

lemma cannedScripts_valid:
  "validateScriptStructure mockKrishnaGovardhan"
  "validateScriptStructure mockKrishnaFlute"
  "validateScriptStructure mockRamaBow"
  "validateScriptStructure mockRamaArrow"
  "validateScriptStructure mockHanuman"
  "validateScriptStructure mockShiva"
  "validateScriptStructure mockDurga"
  "validateScriptStructure mockGanesha"
  "validateScriptStructure mockMeditation"
  "validateScriptStructure mockBattle"
  "validateScriptStructure mockScriptsAction"
  "validateScriptStructure mockScriptsSpiritual"
  "validateScriptStructure mockScriptsDefault"
  "validateScriptStructure defaultScript"
  unfolding mockKrishnaGovardhan_def mockKrishnaFlute_def mockRamaBow_def mockRamaArrow_def
    mockHanuman_def mockShiva_def mockDurga_def mockGanesha_def mockMeditation_def
    mockBattle_def mockScriptsAction_def mockScriptsSpiritual_def mockScriptsDefault_def
    defaultScript_def validateScriptStructure_scriptObject
  by simp_all

lemma lookupLiteral_mockScripts:
  "lookupLiteral mockScripts key =
     (if key = ''action'' then mockScriptsAction
      else if key = ''spiritual'' then mockScriptsSpiritual
      else if key = ''default'' then mockScriptsDefault
      else if key \<in> set objectPrototypeKeys then JBuiltin key else JUndefined)"
  by (simp add: lookupLiteral_def mockScripts_def)

lemma lookupLiteral_styleImages:
  "lookupLiteral styleImages key =
     (if key = ''vibrant'' then JStr imageVibrant
      else if key = ''earth'' then JStr imageEarth
      else if key = ''divine'' then JStr imageDivine
      else if key \<in> set objectPrototypeKeys then JBuiltin key else JUndefined)"
  by (simp add: lookupLiteral_def styleImages_def)

lemma generateMockScript_cases:
  "generateMockScript scene sceneType \<in>
     {mockKrishnaGovardhan, mockKrishnaFlute, mockRamaBow, mockRamaArrow, mockHanuman,
      mockShiva, mockDurga, mockGanesha, mockMeditation, mockBattle,
      mockScriptsAction, mockScriptsSpiritual, mockScriptsDefault} \<or>
   (sceneType \<in> set objectPrototypeKeys \<and> generateMockScript scene sceneType = JBuiltin sceneType)"
  unfolding generateMockScript_def Let_def lookupLiteral_mockScripts
  by (simp del: includes_str.simps)

lemma generateMockScript_valid:
  assumes "sceneType \<notin> set objectPrototypeKeys"
  shows "validateScriptStructure (generateMockScript scene sceneType)"
  using generateMockScript_cases[of scene sceneType] assms cannedScripts_valid by auto

lemma not_valid_JBuiltin: "\<not> validateScriptStructure (JBuiltin k)"
  by (simp add: validateScriptStructure_def)

lemma generateScript_mock:
  assumes "useMockMode client"
  shows "generateScript client live scene sceneType =
           Inr (if validateScriptStructure (generateMockScript scene sceneType)
                then generateMockScript scene sceneType else defaultScript)"
  using assms cannedScripts_valid(14) by (simp add: generateScript_def Let_def)

lemma generateMockImage_string:
  assumes "styleType \<notin> set objectPrototypeKeys"
  shows "isString (generateMockImage prompt styleType)"
  using assms unfolding generateMockImage_def Let_def lookupLiteral_styleImages
  by (simp del: includes_str.simps)

text \<open>
  Claim C6 (degraded mode is deterministic and total).  For any two clients in mock mode,
  whatever their other fields and whatever the external provider would answer, text
  completion and image synthesis return the same results for the same scene text and
  category; neither call fails; the script returned is structurally valid.  For every
  category that is not a member name of \<open>Object.prototype\<close> (so for the three scene
  categories and the three style categories) the results are the canned script chosen by
  \<open>generateMockScript\<close> and a string image reference.
\<close>

theorem C6_mock_mode_deterministic_total:
  assumes "useMockMode client" and "useMockMode client'"
  shows "generateScript client live scene sceneType = generateScript client' live' scene sceneType \<and>
         (\<exists>script. generateScript client live scene sceneType = Inr script \<and>
                   validateScriptStructure script) \<and>
         (sceneType \<notin> set objectPrototypeKeys \<longrightarrow>
            generateScript client live scene sceneType = Inr (generateMockScript scene sceneType)) \<and>
         generateImage client liveImage prompt styleType =
           generateImage client' liveImage' prompt styleType \<and>
         generateImage client liveImage prompt styleType = Inr (generateMockImage prompt styleType) \<and>
         (styleType \<notin> set objectPrototypeKeys \<longrightarrow> isString (generateMockImage prompt styleType))"
proof -
  have s1: "generateScript client live scene sceneType =
           Inr (if validateScriptStructure (generateMockScript scene sceneType)
                then generateMockScript scene sceneType else defaultScript)"
    by (rule generateScript_mock[OF assms(1)])
  have s2: "generateScript client' live' scene sceneType =
           Inr (if validateScriptStructure (generateMockScript scene sceneType)
                then generateMockScript scene sceneType else defaultScript)"
    by (rule generateScript_mock[OF assms(2)])
  have v: "validateScriptStructure (if validateScriptStructure (generateMockScript scene sceneType)
                then generateMockScript scene sceneType else defaultScript)"
    using cannedScripts_valid(14) by simp
  have i1: "generateImage client liveImage prompt styleType = Inr (generateMockImage prompt styleType)"
    using assms(1) by (simp add: generateImage_def)
  have i2: "generateImage client' liveImage' prompt styleType = Inr (generateMockImage prompt styleType)"
    using assms(2) by (simp add: generateImage_def)
  show ?thesis
    using s1 s2 v i1 i2 generateMockScript_valid generateMockImage_string by simp
qed


theorem C6_mock_mode_deterministic_total_witness:
  "useMockMode \<lparr>useMockMode = True, maxRetries = 3, contentSafetyEnabled = False\<rparr> \<and>
   useMockMode \<lparr>useMockMode = True, maxRetries = 0, contentSafetyEnabled = True\<rparr> \<and>
   generateScript \<lparr>useMockMode = True, maxRetries = 3, contentSafetyEnabled = False\<rparr>
       (\<lambda>scene sceneType. Inl (Error ''Failed to generate script. Please try again.''))
       ''Krishna lifts the mountain to protect villagers'' ''general''
     = Inr mockKrishnaGovardhan \<and>
   generateScript \<lparr>useMockMode = True, maxRetries = 0, contentSafetyEnabled = True\<rparr>
       (\<lambda>scene sceneType. Inr JNull)
       ''Krishna lifts the mountain to protect villagers'' ''general''
     = Inr mockKrishnaGovardhan \<and>
   validateScriptStructure mockKrishnaGovardhan \<and>
   ''general'' \<notin> set objectPrototypeKeys \<and>
   ''vibrant'' \<notin> set objectPrototypeKeys \<and>
   generateImage \<lparr>useMockMode = True, maxRetries = 3, contentSafetyEnabled = False\<rparr>
       (\<lambda>prompt styleType. Inl (Error ''Failed to generate image. Please try again.''))
       ''A sage walks by the river'' ''vibrant''
     = Inr (JStr imageVibrant)"
proof -
  have g: "generateMockScript ''Krishna lifts the mountain to protect villagers'' ''general''
             = mockKrishnaGovardhan"
    by code_simp
  have k: "''general'' \<notin> set objectPrototypeKeys" "''vibrant'' \<notin> set objectPrototypeKeys"
    by code_simp+
  have i: "generateMockImage ''A sage walks by the river'' ''vibrant'' = JStr imageVibrant"
    by code_simp
  have m: "useMockMode \<lparr>useMockMode = True, maxRetries = 3, contentSafetyEnabled = False\<rparr>"
          "useMockMode \<lparr>useMockMode = True, maxRetries = 0, contentSafetyEnabled = True\<rparr>"
    by simp_all
  note T = C6_mock_mode_deterministic_total[OF m,
      of "\<lambda>scene sceneType. Inl (Error ''Failed to generate script. Please try again.'')"
         "''Krishna lifts the mountain to protect villagers''" "''general''"
         "\<lambda>scene sceneType. Inr JNull"
         "\<lambda>prompt styleType. Inl (Error ''Failed to generate image. Please try again.'')"
         "''A sage walks by the river''" "''vibrant''"
         "\<lambda>prompt styleType. Inr JNull"]
  from T k(1) have s1: "generateScript \<lparr>useMockMode = True, maxRetries = 3, contentSafetyEnabled = False\<rparr>
       (\<lambda>scene sceneType. Inl (Error ''Failed to generate script. Please try again.''))
       ''Krishna lifts the mountain to protect villagers'' ''general''
     = Inr mockKrishnaGovardhan"
    unfolding g by blast
  from T s1 have s2: "generateScript \<lparr>useMockMode = True, maxRetries = 0, contentSafetyEnabled = True\<rparr>
       (\<lambda>scene sceneType. Inr JNull)
       ''Krishna lifts the mountain to protect villagers'' ''general''
     = Inr mockKrishnaGovardhan"
    by simp
  from T s1 have v: "validateScriptStructure mockKrishnaGovardhan"
    by auto
  from T have i1: "generateImage \<lparr>useMockMode = True, maxRetries = 3, contentSafetyEnabled = False\<rparr>
       (\<lambda>prompt styleType. Inl (Error ''Failed to generate image. Please try again.''))
       ''A sage walks by the river'' ''vibrant''
     = Inr (JStr imageVibrant)"
    unfolding i by blast
  from m s1 s2 v k i1 show ?thesis by blast
qed

section \<open>Properties of the script-stage request handler\<close>

lemma POST_blank:
  assumes "req_scene req = JStr scene" "trim scene = []"
  shows "POST_generateScript ai now req rl =
           (\<lparr>status = 400, body = ErrorBody sceneRequiredError None\<rparr>, rl, [])"
  using assms by (simp add: POST_generateScript_def Let_def)

lemma POST_wordCount:
  assumes "req_scene req = JStr scene" "trim scene \<noteq> []"
    "sceneWordCount scene < 3 \<or> sceneWordCount scene > 20"
  shows "POST_generateScript ai now req rl =
           (\<lparr>status = 400, body = ErrorBody wordCountError None\<rparr>, rl, [])"
proof -
  have "scene \<noteq> []" using assms(2) by (auto simp: trim_def)
  then show ?thesis
    using assms by (simp add: POST_generateScript_def Let_def sceneWordCount_def)
qed

text \<open>
  Claim C7 (rejection by word count before admission), as amended.  For every request
  whose scene is a string that is not blank and whose word count, as the handler counts
  it, lies outside 3 to 20, the handler answers 400 with the word-count error, leaves the
  rate limiter as it was and calls nothing on the client.  A blank scene is also rejected
  with status 400, an unchanged limiter and no call, but with the error ``Scene
  description is required'' instead.
\<close>

theorem C7_word_count_rejection:
  "(req_scene req = JStr scene \<and> trim scene \<noteq> [] \<and>
      (sceneWordCount scene < 3 \<or> sceneWordCount scene > 20) \<longrightarrow>
        POST_generateScript ai now req rl =
          (\<lparr>status = 400, body = ErrorBody wordCountError None\<rparr>, rl, [])) \<and>
   (req_scene req = JStr scene \<and> trim scene = [] \<longrightarrow>
        POST_generateScript ai now req rl =
          (\<lparr>status = 400, body = ErrorBody sceneRequiredError None\<rparr>, rl, []))"
  using POST_blank POST_wordCount by blast

theorem C7_word_count_rejection_witness:
  "trim ''go'' \<noteq> [] \<and> sceneWordCount ''go'' = 1 \<and>
   POST_generateScript
       \<lparr>call_checkContentSafety = (\<lambda>content. Inr safeVerdict),
        call_generateScript = (\<lambda>scene sceneType. Inr mockScriptsDefault),
        call_validateQuality = (\<lambda>script scene. Inr True)\<rparr>
       1000
       \<lparr>req_scene = JStr ''go'', req_sceneType = None, req_ip = Some ''10.0.0.1'',
        req_forwardedFor = None\<rparr>
       (newRateLimiter 10 60000)
     = (\<lparr>status = 400, body = ErrorBody wordCountError None\<rparr>, newRateLimiter 10 60000, []) \<and>
   trim ''   '' = [] \<and>
   POST_generateScript
       \<lparr>call_checkContentSafety = (\<lambda>content. Inr safeVerdict),
        call_generateScript = (\<lambda>scene sceneType. Inr mockScriptsDefault),
        call_validateQuality = (\<lambda>script scene. Inr True)\<rparr>
       1000
       \<lparr>req_scene = JStr ''   '', req_sceneType = None, req_ip = Some ''10.0.0.1'',
        req_forwardedFor = None\<rparr>
       (newRateLimiter 10 60000)
     = (\<lparr>status = 400, body = ErrorBody sceneRequiredError None\<rparr>, newRateLimiter 10 60000, [])"
proof -
  have a: "trim ''go'' \<noteq> []" by code_simp
  have b: "sceneWordCount ''go'' = 1" by code_simp
  have c: "trim ''   '' = []" by code_simp
  show ?thesis
    using a b c
      C7_word_count_rejection[of
        "\<lparr>req_scene = JStr ''go'', req_sceneType = None, req_ip = Some ''10.0.0.1'',
          req_forwardedFor = None\<rparr>" "''go''"
        "\<lparr>call_checkContentSafety = (\<lambda>content. Inr safeVerdict),
          call_generateScript = (\<lambda>scene sceneType. Inr mockScriptsDefault),
          call_validateQuality = (\<lambda>script scene. Inr True)\<rparr>" 1000 "newRateLimiter 10 60000"]
      C7_word_count_rejection[of
        "\<lparr>req_scene = JStr ''   '', req_sceneType = None, req_ip = Some ''10.0.0.1'',
          req_forwardedFor = None\<rparr>" "''   ''"
        "\<lparr>call_checkContentSafety = (\<lambda>content. Inr safeVerdict),
          call_generateScript = (\<lambda>scene sceneType. Inr mockScriptsDefault),
          call_validateQuality = (\<lambda>script scene. Inr True)\<rparr>" 1000 "newRateLimiter 10 60000"]
    by simp
qed

text \<open>
  The claim as stated fails at a scene of three spaces: the handler counts one word, which
  is outside the range, and the error is not the word-count error.
\<close>

theorem C7_blank_scene_counterexample:
  "sceneWordCount ''   '' = 1 \<and>
   fst (POST_generateScript
       \<lparr>call_checkContentSafety = (\<lambda>content. Inr safeVerdict),
        call_generateScript = (\<lambda>scene sceneType. Inr mockScriptsDefault),
        call_validateQuality = (\<lambda>script scene. Inr True)\<rparr>
       1000
       \<lparr>req_scene = JStr ''   '', req_sceneType = None, req_ip = Some ''10.0.0.1'',
        req_forwardedFor = None\<rparr>
       (newRateLimiter 10 60000))
     = \<lparr>status = 400, body = ErrorBody ''Scene description is required'' None\<rparr> \<and>
   ''Scene description is required'' \<noteq> wordCountError"
proof -
  have a: "sceneWordCount ''   '' = 1" by code_simp
  have c: "trim ''   '' = []" by code_simp
  have d: "''Scene description is required'' \<noteq> wordCountError" by (simp add: wordCountError_def)
  show ?thesis using a c d by (simp add: POST_generateScript_def Let_def sceneRequiredError_def)
qed

lemma afterAdmission_fault:
  assumes "call_checkContentSafety ai scene = Inl e"
  shows "afterAdmission ai scene sceneType wc rateLimit =
           afterAdmission (ai\<lparr>call_checkContentSafety := (\<lambda>content. Inr safeVerdict)\<rparr>)
             scene sceneType wc rateLimit"
    and "take 2 (snd (afterAdmission ai scene sceneType wc rateLimit)) =
           [CheckContentSafety scene, GenerateScript scene sceneType]"
    and "status (fst (afterAdmission ai scene sceneType wc rateLimit)) \<noteq> 400"
  using assms
  by (simp_all add: afterAdmission_def safeVerdict_def Let_def split: sum.splits)

lemma error_messages_distinct:
  "unsafeInputError \<noteq> sceneRequiredError"
  "unsafeInputError \<noteq> wordCountError"
  "unsafeInputError \<noteq> generationFailedError"
  by (simp_all add: unsafeInputError_def sceneRequiredError_def wordCountError_def
        generationFailedError_def)

lemma afterAdmission_fault_body:
  assumes "call_checkContentSafety ai scene = Inl e"
  shows "body (fst (afterAdmission ai scene sceneType wc rateLimit)) \<noteq> ErrorBody unsafeInputError None"
  using assms error_messages_distinct
  by (simp add: afterAdmission_def Let_def split: sum.splits)

lemma POST_fault_same:
  assumes "req_scene req = JStr scene" "call_checkContentSafety ai scene = Inl e"
  shows "POST_generateScript ai now req rl =
         POST_generateScript (ai\<lparr>call_checkContentSafety := (\<lambda>content. Inr safeVerdict)\<rparr>) now req rl"
  using assms afterAdmission_fault(1)[OF assms(2)]
  by (simp add: POST_generateScript_def Let_def split_beta)

lemma POST_fault_body:
  assumes "req_scene req = JStr scene" "call_checkContentSafety ai scene = Inl e"
  shows "body (fst (POST_generateScript ai now req rl)) \<noteq> ErrorBody unsafeInputError None"
  using assms afterAdmission_fault_body[OF assms(2)] error_messages_distinct
  by (simp add: POST_generateScript_def Let_def split_beta)

lemma POST_fault_proceeds:
  assumes "req_scene req = JStr scene" "call_checkContentSafety ai scene = Inl e"
    and "trim scene \<noteq> []" "3 \<le> sceneWordCount scene" "sceneWordCount scene \<le> 20"
    and "allowed (fst (isAllowed now (clientIP req) rl))"
  shows "take 2 (snd (snd (POST_generateScript ai now req rl))) =
           [CheckContentSafety scene,
            GenerateScript scene (case req_sceneType req of None \<Rightarrow> ''general'' | Some t \<Rightarrow> t)]"
proof -
  have "scene \<noteq> []" using assms(3) by (auto simp: trim_def)
  then show ?thesis
    using assms afterAdmission_fault(2)[OF assms(2)]
    by (simp add: POST_generateScript_def Let_def split_beta sceneWordCount_def)
qed

lemma AIClient_checkContentSafety_fault:
  "useMockMode client \<or> moderations content = Inl e \<or> moderations content = Inr [] \<Longrightarrow>
     AIClient_checkContentSafety client moderations content = safeVerdict"
  by (auto simp: AIClient_checkContentSafety_def)

text \<open>
  Claim C8 (fail open on a safety evaluator fault).  When the awaited safety check throws
  for the scene of a request, the handler behaves exactly as if the check had returned the
  safe verdict: same response, same limiter, same calls.  Its response is never the
  unsafe-input rejection, and for a request that passes validation and admission the next
  call is script generation.  The client's own \<open>checkContentSafety\<close> turns a failure of the
  moderation endpoint into the safe verdict.
\<close>

theorem C8_safety_fault_fails_open:
  assumes "req_scene req = JStr scene" and "call_checkContentSafety ai scene = Inl e"
  shows "POST_generateScript ai now req rl =
           POST_generateScript (ai\<lparr>call_checkContentSafety := (\<lambda>content. Inr safeVerdict)\<rparr>)
             now req rl \<and>
         body (fst (POST_generateScript ai now req rl)) \<noteq> ErrorBody unsafeInputError None \<and>
         (trim scene \<noteq> [] \<and> 3 \<le> sceneWordCount scene \<and> sceneWordCount scene \<le> 20 \<and>
          allowed (fst (isAllowed now (clientIP req) rl)) \<longrightarrow>
            take 2 (snd (snd (POST_generateScript ai now req rl))) =
              [CheckContentSafety scene,
               GenerateScript scene
                 (case req_sceneType req of None \<Rightarrow> ''general'' | Some t \<Rightarrow> t)]) \<and>
         (moderations content = Inl e' \<longrightarrow>
            AIClient_checkContentSafety client moderations content = safeVerdict) \<and>
         verdict_safe safeVerdict"
  using POST_fault_same[OF assms] POST_fault_body[OF assms] POST_fault_proceeds[OF assms]
    AIClient_checkContentSafety_fault[of client moderations content e']
  by (simp add: safeVerdict_def)

theorem C8_safety_fault_fails_open_witness:
  "call_checkContentSafety
       \<lparr>call_checkContentSafety = (\<lambda>content. Inl (Error ''moderation unavailable'')),
        call_generateScript = (\<lambda>scene sceneType. Inr mockScriptsDefault),
        call_validateQuality = (\<lambda>script scene. Inr True)\<rparr> ''a sage walks home''
     = Inl (Error ''moderation unavailable'') \<and>
   trim ''a sage walks home'' \<noteq> [] \<and> sceneWordCount ''a sage walks home'' = 4 \<and>
   allowed (fst (isAllowed 1000
      (clientIP \<lparr>req_scene = JStr ''a sage walks home'', req_sceneType = None,
                req_ip = Some ''10.0.0.1'', req_forwardedFor = None\<rparr>)
      (newRateLimiter 10 60000))) \<and>
   POST_generateScript
       \<lparr>call_checkContentSafety = (\<lambda>content. Inl (Error ''moderation unavailable'')),
        call_generateScript = (\<lambda>scene sceneType. Inr mockScriptsDefault),
        call_validateQuality = (\<lambda>script scene. Inr True)\<rparr>
       1000
       \<lparr>req_scene = JStr ''a sage walks home'', req_sceneType = None,
        req_ip = Some ''10.0.0.1'', req_forwardedFor = None\<rparr>
       (newRateLimiter 10 60000)
     = (\<lparr>status = 200,
         body = ScriptBody mockScriptsDefault
           \<lparr>meta_scene = ''a sage walks home'', meta_sceneType = ''general'', meta_wordCount = 4,
            meta_remaining = 9, meta_resetTime = 61000\<rparr>\<rparr>,
        snd (isAllowed 1000 ''10.0.0.1'' (newRateLimiter 10 60000)),
        [CheckContentSafety ''a sage walks home'',
         GenerateScript ''a sage walks home'' ''general'',
         ValidateQuality mockScriptsDefault ''a sage walks home'']) \<and>
   AIClient_checkContentSafety \<lparr>useMockMode = False, maxRetries = 3, contentSafetyEnabled = False\<rparr>
       (\<lambda>content. Inl (Error ''moderation unavailable'')) ''a sage walks home'' = safeVerdict"
proof -
  have t: "trim ''a sage walks home'' \<noteq> []" by code_simp
  have w: "sceneWordCount ''a sage walks home'' = 4" by code_simp
  have w': "length (splitWhiteSpace (trim ''a sage walks home'')) = 4" by code_simp
  have tl: "length (trim ''a sage walks home'') \<noteq> 0" using t by simp
  have P: "POST_generateScript
       \<lparr>call_checkContentSafety = (\<lambda>content. Inr safeVerdict),
        call_generateScript = (\<lambda>scene sceneType. Inr mockScriptsDefault),
        call_validateQuality = (\<lambda>script scene. Inr True)\<rparr>
       1000
       \<lparr>req_scene = JStr ''a sage walks home'', req_sceneType = None,
        req_ip = Some ''10.0.0.1'', req_forwardedFor = None\<rparr>
       (newRateLimiter 10 60000)
     = (\<lparr>status = 200,
         body = ScriptBody mockScriptsDefault
           \<lparr>meta_scene = ''a sage walks home'', meta_sceneType = ''general'', meta_wordCount = 4,
            meta_remaining = 9, meta_resetTime = 61000\<rparr>\<rparr>,
        snd (isAllowed 1000 ''10.0.0.1'' (newRateLimiter 10 60000)),
        [CheckContentSafety ''a sage walks home'',
         GenerateScript ''a sage walks home'' ''general'',
         ValidateQuality mockScriptsDefault ''a sage walks home''])"
    using tl w'
    by (simp add: POST_generateScript_def Let_def clientIP_def isAllowed_def newRateLimiter_def
          afterAdmission_def safeVerdict_def)
  have A: "allowed (fst (isAllowed 1000
      (clientIP \<lparr>req_scene = JStr ''a sage walks home'', req_sceneType = None,
                req_ip = Some ''10.0.0.1'', req_forwardedFor = None\<rparr>)
      (newRateLimiter 10 60000)))"
    by (simp add: clientIP_def isAllowed_def newRateLimiter_def Let_def)
  show ?thesis
    using t w A P
      C8_safety_fault_fails_open[where
        req = "\<lparr>req_scene = JStr ''a sage walks home'', req_sceneType = None,
          req_ip = Some ''10.0.0.1'', req_forwardedFor = None\<rparr>"
        and scene = "''a sage walks home''"
        and ai = "\<lparr>call_checkContentSafety = (\<lambda>content. Inl (Error ''moderation unavailable'')),
          call_generateScript = (\<lambda>scene sceneType. Inr mockScriptsDefault),
          call_validateQuality = (\<lambda>script scene. Inr True)\<rparr>"
        and e = "Error ''moderation unavailable''"
        and moderations = "\<lambda>content. Inl (Error ''moderation unavailable'')"
        and content = "''a sage walks home''"
        and e' = "Error ''moderation unavailable''" and now = 1000
        and rl = "newRateLimiter 10 60000"
        and client = "\<lparr>useMockMode = False, maxRetries = 3, contentSafetyEnabled = False\<rparr>"]
    by simp
qed

section \<open>Properties of the quality evaluator\<close>

subsection \<open>Dimension scores lie on the grid\<close>

lemma deduct_grid:
  assumes "fst v \<le> 100 \<and> 5 dvd fst v" "0 \<le> points" "5 dvd points"
  shows "fst (deduct c points is ss v) \<le> 100 \<and> 5 dvd fst (deduct c points is ss v)"
  using assms by (cases v) (auto simp: deduct_def)

lemma checkCharacters_grid:
  "fst v \<le> 100 \<and> 5 dvd fst v \<Longrightarrow>
   fst (checkCharacters cs script v) \<le> 100 \<and> 5 dvd fst (checkCharacters cs script v)"
proof (induction cs arbitrary: v)
  case Nil
  then show ?case by simp
next
  case (Cons c cs)
  obtain a i s where acc: "checkCharacterAccuracy c script = (a, i, s)"
    by (cases "checkCharacterAccuracy c script") auto
  have "fst (deduct (\<not> a) 15 i s v) \<le> 100 \<and> 5 dvd fst (deduct (\<not> a) 15 i s v)"
    by (rule deduct_grid[OF Cons.prems]) simp_all
  from Cons.IH[OF this] show ?case by (simp add: acc)
qed

lemma finish_grid:
  assumes "fst v \<le> 100 \<and> 5 dvd fst v"
  shows "scoreGrid (rule_score (finish v))"
  using assms by (cases v) (auto simp: finish_def scoreGrid_def max_def)

lemma start_grid: "fst ((100, [], []) :: ruleVars) \<le> 100 \<and> 5 dvd fst ((100, [], []) :: ruleVars)"
  by simp

lemma validateMythologicalAccuracy_grid:
  "scoreGrid (rule_score (validateMythologicalAccuracy script scene))"
  unfolding validateMythologicalAccuracy_def Let_def
  by (intro finish_grid deduct_grid checkCharacters_grid start_grid) simp_all

lemma validateVisualCoherence_grid:
  "scoreGrid (rule_score (validateVisualCoherence script scene))"
  unfolding validateVisualCoherence_def Let_def
  by (intro finish_grid deduct_grid start_grid) simp_all

lemma validateCulturalAuthenticity_grid:
  "scoreGrid (rule_score (validateCulturalAuthenticity script scene))"
  unfolding validateCulturalAuthenticity_def Let_def
  by (intro finish_grid deduct_grid start_grid) simp_all

lemma validateStorytellingQuality_grid:
  "scoreGrid (rule_score (validateStorytellingQuality script scene))"
  unfolding validateStorytellingQuality_def Let_def
  by (intro finish_grid deduct_grid start_grid) simp_all

lemma scoreGrid_cases:
  assumes "scoreGrid s"
  shows "s \<in> {0, 5, 10, 15, 20, 25, 30, 35, 40, 45, 50, 55, 60, 65, 70, 75, 80, 85, 90, 95, 100}"
proof -
  from assms obtain k where k: "s = 5 * k" by (auto simp: scoreGrid_def)
  with assms have "0 \<le> k" "k \<le> 20" by (auto simp: scoreGrid_def)
  then have "k \<in> {0..20}" by simp
  also have "{0..20::int} = {0, 1, 2, 3, 4, 5, 6, 7, 8, 9, 10, 11, 12, 13, 14, 15, 16, 17, 18, 19, 20}"
    by (auto simp: atLeastAtMost_def atLeast_def atMost_def) presburger
  finally show ?thesis using k by auto
qed


subsection \<open>Double arithmetic on the values that occur\<close>

lemma binade_numeral:
  "binade (numeral n) x =
     (if 2 \<le> x then binade (pred_numeral n) (x / 2) + 1
      else if x < 1 then binade (pred_numeral n) (x * 2) - 1 else 0)"
  by (simp add: numeral_eq_Suc)

lemma floor_numeral_divide:
  "\<lfloor>(numeral a :: rat) / numeral b\<rfloor> = numeral a div numeral b"
  using floor_divide_of_int_eq[of "numeral a" "numeral b", where ?'a = rat] by simp

lemmas double_eval = floor_numeral_divide toDouble_def binade_numeral roundHalfEven_def
  twoToThe_def Let_def dmul_def dadd_def ddiv_def

lemma weights_as_doubles:
  "toDouble (3 / 10) = 5404319552844595 / 18014398509481984"
  "toDouble (25 / 100) = 1 / 4"
  "toDouble (2 / 10) = 3602879701896397 / 18014398509481984"
  by (simp_all add: double_eval)

lemma totalWeight_one:
  "dadd (dadd (dadd (dadd 0 (toDouble (3 / 10))) (toDouble (25 / 100))) (toDouble (25 / 100)))
     (toDouble (2 / 10)) = 1"
  unfolding weights_as_doubles by (simp add: double_eval)

lemma dmul_first_weight:
  assumes "scoreGrid s"
  shows "dmul (of_int s) (toDouble (3 / 10)) = 3 / 10 * of_int s"
  using scoreGrid_cases[OF assms] unfolding weights_as_doubles
  by (elim insertE emptyE) (simp_all add: double_eval)

lemma dmul_last_weight:
  assumes "scoreGrid s"
  shows "dmul (of_int s) (toDouble (2 / 10)) = 2 / 10 * of_int s"
  using scoreGrid_cases[OF assms] unfolding weights_as_doubles
  by (elim insertE emptyE) (simp_all add: double_eval)

lemma binade_upper: "0 < x \<Longrightarrow> x < 2 ^ n \<Longrightarrow> binade fuel x \<le> int n"
proof (induction fuel arbitrary: x n)
  case 0
  then show ?case by simp
next
  case (Suc fuel)
  show ?case
  proof (cases "2 \<le> x")
    case True
    with Suc.prems obtain m where n: "n = Suc m" by (cases n) auto
    have "x / 2 < 2 ^ m" using Suc.prems n by simp
    moreover have "0 < x / 2" using Suc.prems by simp
    ultimately have "binade fuel (x / 2) \<le> int m" by (rule Suc.IH[rotated])
    then show ?thesis using True n by simp
  next
    case False
    show ?thesis
    proof (cases "x < 1")
      case True
      have "x * 2 < 2 ^ 1" using True by simp
      moreover have "0 < x * 2" using Suc.prems by simp
      ultimately have "binade fuel (x * 2) \<le> int 1" by (rule Suc.IH[rotated])
      then show ?thesis using True False by simp
    next
      case False
      with \<open>\<not> 2 \<le> x\<close> show ?thesis by simp
    qed
  qed
qed

lemma roundHalfEven_of_int: "roundHalfEven (of_int n) = n"
  by (simp add: roundHalfEven_def)

lemma toDouble_quarters:
  assumes "0 \<le> m" "m \<le> 400"
  shows "toDouble (of_int m / 4) = of_int m / 4"
proof (cases "m = 0")
  case True
  then show ?thesis by (simp add: toDouble_def)
next
  case False
  define x :: rat where "x = of_int m / 4"
  have pos: "0 < x" using assms False by (simp add: x_def)
  have "x \<le> 100" using assms by (simp add: x_def)
  then have "x < 2 ^ 7" by simp
  then have e: "binade 1100 x \<le> 7" using binade_upper[OF pos, of 7 1100] by simp
  define j where "j = nat (52 - binade 1100 x)"
  have j: "2 \<le> j" using e by (simp add: j_def)
  have ulp: "twoToThe (binade 1100 x - 52) = 1 / 2 ^ j"
    using e by (simp add: twoToThe_def j_def)
  have "(2::rat) ^ j = 4 * 2 ^ (j - 2)"
    using j by (metis power_add numeral_Bit0 le_add_diff_inverse power2_eq_square mult_2 numeral_times_numeral semiring_norm(12) semiring_norm(13) power_one_right)
  then have q: "x / (1 / 2 ^ j) = of_int (m * 2 ^ (j - 2))"
    by (simp add: x_def)
  have "toDouble x = sgn x * of_int (roundHalfEven (\<bar>x\<bar> / (1 / 2 ^ j))) * (1 / 2 ^ j)"
    using pos ulp by (simp add: toDouble_def Let_def)
  also have "\<dots> = of_int (roundHalfEven (x / (1 / 2 ^ j))) * (1 / 2 ^ j)"
    using pos by simp
  also have "\<dots> = of_int (m * 2 ^ (j - 2)) * (1 / 2 ^ j)"
    unfolding q roundHalfEven_of_int ..
  also have "\<dots> = x"
    using q by (metis divide_eq_0_iff nonzero_divide_eq_eq power_not_zero times_divide_eq_right zero_neq_numeral mult.commute nonzero_mult_div_cancel_left mult_1 divide_divide_eq_right)
  finally show ?thesis by (simp add: x_def)
qed


lemma gridSum_exact:
  assumes "scoreGrid a" "scoreGrid b" "scoreGrid c" "scoreGrid d"
  shows "toDouble (weightedSumOf a b c d) = weightedSumOf a b c d"
proof -
  from assms obtain ka kb kc kd where k: "a = 5 * ka" "b = 5 * kb" "c = 5 * kc" "d = 5 * kd"
    by (auto simp: scoreGrid_def elim!: dvdE)
  with assms have r: "0 \<le> ka" "ka \<le> 20" "0 \<le> kb" "kb \<le> 20" "0 \<le> kc" "kc \<le> 20"
    "0 \<le> kd" "kd \<le> 20"
    by (auto simp: scoreGrid_def)
  define m where "m = 6 * ka + 5 * kb + 5 * kc + 4 * kd"
  have m: "0 \<le> m" "m \<le> 400" using r by (simp_all add: m_def)
  have v: "weightedSumOf a b c d = (of_int m / 4 :: rat)"
    by (simp add: weightedSumOf_def k m_def field_simps)
  show ?thesis unfolding v by (rule toDouble_quarters[OF m])
qed

lemma scoreGrid_0: "scoreGrid 0"
  by (simp add: scoreGrid_def)

lemma weightedSumOf_parts:
  "weightedSumOf a 0 0 0 + weightedSumOf 0 b 0 0 = weightedSumOf a b 0 0"
  "weightedSumOf a b 0 0 + weightedSumOf 0 0 c 0 = weightedSumOf a b c 0"
  "weightedSumOf a b c 0 + weightedSumOf 0 0 0 d = weightedSumOf a b c d"
  "of_int b * (1 / 4 :: rat) = weightedSumOf 0 b 0 0"
  by (simp_all add: weightedSumOf_def)

lemma products_exact:
  assumes "scoreGrid s"
  shows "dmul (of_int s) (toDouble (3 / 10)) = weightedSumOf s 0 0 0"
    and "dmul (of_int s) (toDouble (25 / 100)) = weightedSumOf 0 s 0 0"
    and "dmul (of_int s) (toDouble (2 / 10)) = weightedSumOf 0 0 0 s"
proof -
  show "dmul (of_int s) (toDouble (3 / 10)) = weightedSumOf s 0 0 0"
    using dmul_first_weight[OF assms] by (simp add: weightedSumOf_def)
  show "dmul (of_int s) (toDouble (2 / 10)) = weightedSumOf 0 0 0 s"
    using dmul_last_weight[OF assms] by (simp add: weightedSumOf_def)
  have "dmul (of_int s) (toDouble (25 / 100)) = toDouble (weightedSumOf 0 s 0 0)"
    unfolding dmul_def weights_as_doubles(2) weightedSumOf_parts(4) ..
  also have "\<dots> = weightedSumOf 0 s 0 0"
    by (rule gridSum_exact[OF scoreGrid_0 assms scoreGrid_0 scoreGrid_0])
  finally show "dmul (of_int s) (toDouble (25 / 100)) = weightedSumOf 0 s 0 0" .
qed

lemma runRules_exact:
  fixes script :: Script and scene :: string
  defines "r1 \<equiv> validateMythologicalAccuracy script scene"
    and "r2 \<equiv> validateVisualCoherence script scene"
    and "r3 \<equiv> validateCulturalAuthenticity script scene"
    and "r4 \<equiv> validateStorytellingQuality script scene"
  shows "runRules VALIDATION_RULES script scene ([], 0, 0) =
           ([r1, r2, r3, r4],
            weightedSumOf (rule_score r1) (rule_score r2) (rule_score r3) (rule_score r4), 1)"
proof -
  have g1: "scoreGrid (rule_score r1)" unfolding r1_def by (rule validateMythologicalAccuracy_grid)
  have g2: "scoreGrid (rule_score r2)" unfolding r2_def by (rule validateVisualCoherence_grid)
  have g3: "scoreGrid (rule_score r3)" unfolding r3_def by (rule validateCulturalAuthenticity_grid)
  have g4: "scoreGrid (rule_score r4)" unfolding r4_def by (rule validateStorytellingQuality_grid)
  have t1: "dadd 0 (weightedSumOf (rule_score r1) 0 0 0) = weightedSumOf (rule_score r1) 0 0 0"
    unfolding dadd_def add_0_left
    by (rule gridSum_exact[OF g1 scoreGrid_0 scoreGrid_0 scoreGrid_0])
  have t2: "dadd (weightedSumOf (rule_score r1) 0 0 0) (weightedSumOf 0 (rule_score r2) 0 0) =
              weightedSumOf (rule_score r1) (rule_score r2) 0 0"
    unfolding dadd_def weightedSumOf_parts(1)
    by (rule gridSum_exact[OF g1 g2 scoreGrid_0 scoreGrid_0])
  have t3: "dadd (weightedSumOf (rule_score r1) (rule_score r2) 0 0)
                 (weightedSumOf 0 (rule_score r3) 0 0) =
              weightedSumOf (rule_score r1) (rule_score r2) (rule_score r3) 0"
  proof -
    have "weightedSumOf 0 (rule_score r3) 0 0 = weightedSumOf 0 0 (rule_score r3) 0"
      by (simp add: weightedSumOf_def)
    then show ?thesis
      unfolding dadd_def using gridSum_exact[OF g1 g2 g3 scoreGrid_0]
      by (simp add: weightedSumOf_parts(2))
  qed
  have t4: "dadd (weightedSumOf (rule_score r1) (rule_score r2) (rule_score r3) 0)
                 (weightedSumOf 0 0 0 (rule_score r4)) =
              weightedSumOf (rule_score r1) (rule_score r2) (rule_score r3) (rule_score r4)"
    unfolding dadd_def weightedSumOf_parts(3)
    by (rule gridSum_exact[OF g1 g2 g3 g4])
  show ?thesis
    unfolding VALIDATION_RULES_def runRules.simps Let_def
    unfolding r1_def[symmetric] r2_def[symmetric] r3_def[symmetric] r4_def[symmetric]
    unfolding products_exact[OF g1] products_exact[OF g2] products_exact[OF g3]
      products_exact[OF g4] t1 t2 t3 t4 totalWeight_one
    by simp
qed

lemma validateQuality_exact:
  fixes script :: Script and scene :: string and contextScene :: "string option"
  defines "scene' \<equiv> (case contextScene of None \<Rightarrow> scene | Some s \<Rightarrow> s)"
  defines "r \<equiv> validateQuality script scene contextScene"
  shows "metadata r =
           \<lparr>mythologicalAccuracy = rule_score (validateMythologicalAccuracy script scene'),
            visualCoherence = rule_score (validateVisualCoherence script scene'),
            culturalAuthenticity = rule_score (validateCulturalAuthenticity script scene'),
            storytellingQuality = rule_score (validateStorytellingQuality script scene')\<rparr>"
    and "quality_score r = mathRound (weightedSum r)"
    and "valid r \<longleftrightarrow> weightedSum r \<ge> 70"
proof -
  let ?W = "weightedSumOf (rule_score (validateMythologicalAccuracy script scene'))
              (rule_score (validateVisualCoherence script scene'))
              (rule_score (validateCulturalAuthenticity script scene'))
              (rule_score (validateStorytellingQuality script scene'))"
  have fs: "ddiv ?W 1 = ?W"
    unfolding ddiv_def div_by_1
    by (rule gridSum_exact[OF validateMythologicalAccuracy_grid validateVisualCoherence_grid
          validateCulturalAuthenticity_grid validateStorytellingQuality_grid])
  have run: "runRules VALIDATION_RULES script scene' ([], 0, 0) =
      ([validateMythologicalAccuracy script scene', validateVisualCoherence script scene',
        validateCulturalAuthenticity script scene', validateStorytellingQuality script scene'],
       ?W, 1)"
    by (rule runRules_exact)
  have m: "metadata r =
           \<lparr>mythologicalAccuracy = rule_score (validateMythologicalAccuracy script scene'),
            visualCoherence = rule_score (validateVisualCoherence script scene'),
            culturalAuthenticity = rule_score (validateCulturalAuthenticity script scene'),
            storytellingQuality = rule_score (validateStorytellingQuality script scene')\<rparr>"
    unfolding r_def validateQuality_def scene'_def[symmetric] Let_def run
    by (simp add: scoreAt_def)
  have W: "weightedSum r = ?W" unfolding weightedSum_def m by simp
  show "metadata r =
           \<lparr>mythologicalAccuracy = rule_score (validateMythologicalAccuracy script scene'),
            visualCoherence = rule_score (validateVisualCoherence script scene'),
            culturalAuthenticity = rule_score (validateCulturalAuthenticity script scene'),
            storytellingQuality = rule_score (validateStorytellingQuality script scene')\<rparr>"
    by (rule m)
  show "quality_score r = mathRound (weightedSum r)"
    unfolding W unfolding r_def validateQuality_def scene'_def[symmetric] Let_def run
    by (simp add: fs)
  show "valid r \<longleftrightarrow> weightedSum r \<ge> 70"
    unfolding W unfolding r_def validateQuality_def scene'_def[symmetric] Let_def run
    by (simp add: fs)
qed

lemma mathRound_near: "\<bar>of_int (mathRound x) - x\<bar> \<le> 1 / 2"
  unfolding mathRound_def by linarith


text \<open>
  Claim C5 (the aggregate of the quality evaluator), as amended.  For every script and
  scene, the reported score is the weighted sum of the four dimension scores, with the
  weights 0.30, 0.25, 0.25 and 0.20, rounded to the nearest integer (so it differs from the
  sum by at most one half), and \<open>valid\<close> holds exactly when that weighted sum, the
  aggregate before rounding, is at least 70.  The weights of the rule table are the doubles
  for these four decimals; they sum to 1, also in double arithmetic, and no rounding error
  arises anywhere in the computation.
\<close>

theorem C5_weighted_aggregate:
  "quality_score (validateQuality script scene contextScene) =
     mathRound (weightedSum (validateQuality script scene contextScene)) \<and>
   \<bar>of_int (quality_score (validateQuality script scene contextScene)) -
      weightedSum (validateQuality script scene contextScene)\<bar> \<le> 1 / 2 \<and>
   (valid (validateQuality script scene contextScene) \<longleftrightarrow>
      weightedSum (validateQuality script scene contextScene) \<ge> 70) \<and>
   metadata (validateQuality script scene contextScene) =
     \<lparr>mythologicalAccuracy = rule_score (validateMythologicalAccuracy script
          (case contextScene of None \<Rightarrow> scene | Some s \<Rightarrow> s)),
      visualCoherence = rule_score (validateVisualCoherence script
          (case contextScene of None \<Rightarrow> scene | Some s \<Rightarrow> s)),
      culturalAuthenticity = rule_score (validateCulturalAuthenticity script
          (case contextScene of None \<Rightarrow> scene | Some s \<Rightarrow> s)),
      storytellingQuality = rule_score (validateStorytellingQuality script
          (case contextScene of None \<Rightarrow> scene | Some s \<Rightarrow> s))\<rparr> \<and>
   map (\<lambda>(name, weight, validator). weight) VALIDATION_RULES =
     [toDouble (3 / 10), toDouble (25 / 100), toDouble (25 / 100), toDouble (2 / 10)] \<and>
   dadd (dadd (dadd (dadd 0 (toDouble (3 / 10))) (toDouble (25 / 100))) (toDouble (25 / 100)))
     (toDouble (2 / 10)) = 1 \<and>
   weightedSumOf 1 1 1 1 = 1"
proof -
  have a: "map (\<lambda>(name, weight, validator). weight) VALIDATION_RULES =
     [toDouble (3 / 10), toDouble (25 / 100), toDouble (25 / 100), toDouble (2 / 10)]"
    unfolding VALIDATION_RULES_def by simp
  have b: "weightedSumOf 1 1 1 1 = 1" by (simp add: weightedSumOf_def)
  show ?thesis
    using validateQuality_exact[of script scene contextScene] mathRound_near a b totalWeight_one
    by simp
qed

theorem C5_weighted_aggregate_witness:
  "metadata (validateQuality
       \<lparr>narrator_caption = Some ''The divine sage blesses the temple.'',
        dialogue = Some ''Peace to all.'',
        image_description = Some ''A sage in saffron robes stands before an old temple at dawn''\<rparr>
       ''A sage blesses the temple'' None) =
     \<lparr>mythologicalAccuracy = 100, visualCoherence = 65, culturalAuthenticity = 100,
      storytellingQuality = 90\<rparr> \<and>
   weightedSum (validateQuality
       \<lparr>narrator_caption = Some ''The divine sage blesses the temple.'',
        dialogue = Some ''Peace to all.'',
        image_description = Some ''A sage in saffron robes stands before an old temple at dawn''\<rparr>
       ''A sage blesses the temple'' None) = 357 / 4 \<and>
   quality_score (validateQuality
       \<lparr>narrator_caption = Some ''The divine sage blesses the temple.'',
        dialogue = Some ''Peace to all.'',
        image_description = Some ''A sage in saffron robes stands before an old temple at dawn''\<rparr>
       ''A sage blesses the temple'' None) = 89 \<and>
   valid (validateQuality
       \<lparr>narrator_caption = Some ''The divine sage blesses the temple.'',
        dialogue = Some ''Peace to all.'',
        image_description = Some ''A sage in saffron robes stands before an old temple at dawn''\<rparr>
       ''A sage blesses the temple'' None)"
proof -
  let ?script = "\<lparr>narrator_caption = Some ''The divine sage blesses the temple.'',
        dialogue = Some ''Peace to all.'',
        image_description = Some ''A sage in saffron robes stands before an old temple at dawn''\<rparr>"
  let ?r = "validateQuality ?script ''A sage blesses the temple'' None"
  have s1: "rule_score (validateMythologicalAccuracy ?script ''A sage blesses the temple'') = 100"
    by code_simp
  have s2: "rule_score (validateVisualCoherence ?script ''A sage blesses the temple'') = 65"
    by code_simp
  have s3: "rule_score (validateCulturalAuthenticity ?script ''A sage blesses the temple'') = 100"
    by code_simp
  have s4: "rule_score (validateStorytellingQuality ?script ''A sage blesses the temple'') = 90"
    by code_simp
  note T = C5_weighted_aggregate[of ?script "''A sage blesses the temple''" None]
  have m: "metadata ?r =
     \<lparr>mythologicalAccuracy = 100, visualCoherence = 65, culturalAuthenticity = 100,
      storytellingQuality = 90\<rparr>"
    using T s1 s2 s3 s4 by simp
  have w: "weightedSum ?r = 357 / 4"
    unfolding weightedSum_def m by (simp add: weightedSumOf_def)
  have q: "quality_score ?r = 89"
    using T unfolding w by (simp add: mathRound_def floor_numeral_divide)
  have v: "valid ?r" using T unfolding w by simp
  from m w q v show ?thesis by blast
qed

text \<open>
  Read with the reported score as the aggregate, the claim's last part,
  \<open>valid = (score \<ge> 70)\<close>, fails: with dimension scores 85, 80, 40 and 70 the weighted sum
  is 69.5, the reported score is 70, and the result is not valid.
\<close>

theorem C5_rounded_score_counterexample:
  "metadata (validateQuality
       \<lparr>narrator_caption = Some ''A primitive yet divine being walks among the cows'',
        dialogue = Some ''Who are you, and why here?'',
        image_description = Some ''An evil cloud glare behind Krishna near a river''\<rparr>
       ''Krishna meets a stranger'' None) =
     \<lparr>mythologicalAccuracy = 85, visualCoherence = 80, culturalAuthenticity = 40,
      storytellingQuality = 70\<rparr> \<and>
   weightedSum (validateQuality
       \<lparr>narrator_caption = Some ''A primitive yet divine being walks among the cows'',
        dialogue = Some ''Who are you, and why here?'',
        image_description = Some ''An evil cloud glare behind Krishna near a river''\<rparr>
       ''Krishna meets a stranger'' None) = 139 / 2 \<and>
   quality_score (validateQuality
       \<lparr>narrator_caption = Some ''A primitive yet divine being walks among the cows'',
        dialogue = Some ''Who are you, and why here?'',
        image_description = Some ''An evil cloud glare behind Krishna near a river''\<rparr>
       ''Krishna meets a stranger'' None) = 70 \<and>
   \<not> valid (validateQuality
       \<lparr>narrator_caption = Some ''A primitive yet divine being walks among the cows'',
        dialogue = Some ''Who are you, and why here?'',
        image_description = Some ''An evil cloud glare behind Krishna near a river''\<rparr>
       ''Krishna meets a stranger'' None)"
proof -
  let ?script = "\<lparr>narrator_caption = Some ''A primitive yet divine being walks among the cows'',
        dialogue = Some ''Who are you, and why here?'',
        image_description = Some ''An evil cloud glare behind Krishna near a river''\<rparr>"
  let ?r = "validateQuality ?script ''Krishna meets a stranger'' None"
  have s1: "rule_score (validateMythologicalAccuracy ?script ''Krishna meets a stranger'') = 85"
    by code_simp
  have s2: "rule_score (validateVisualCoherence ?script ''Krishna meets a stranger'') = 80"
    by code_simp
  have s3: "rule_score (validateCulturalAuthenticity ?script ''Krishna meets a stranger'') = 40"
    by code_simp
  have s4: "rule_score (validateStorytellingQuality ?script ''Krishna meets a stranger'') = 70"
    by code_simp
  note E = validateQuality_exact[of ?script "''Krishna meets a stranger''" None]
  have m: "metadata ?r =
     \<lparr>mythologicalAccuracy = 85, visualCoherence = 80, culturalAuthenticity = 40,
      storytellingQuality = 70\<rparr>"
    using E(1) s1 s2 s3 s4 by simp
  have w: "weightedSum ?r = 139 / 2"
    unfolding weightedSum_def m by (simp add: weightedSumOf_def)
  have q: "quality_score ?r = 70" using E(2) unfolding w by (simp add: mathRound_def)
  have v: "\<not> valid ?r" using E(3) unfolding w by simp
  from m w q v show ?thesis by blast
qed

lemma startsWith_iff: "startsWith s k \<longleftrightarrow> (\<exists>q. s = k @ q)"
  by (induction s k rule: startsWith.induct) auto

lemma includes_str_iff: "includes_str s k \<longleftrightarrow> (\<exists>p q. s = p @ k @ q)"
proof (induction s)
  case Nil
  then show ?case by auto
next
  case (Cons c cs)
  show ?case
  proof
    assume "includes_str (c # cs) k"
    then consider "startsWith (c # cs) k" | "includes_str cs k" by auto
    then show "\<exists>p q. c # cs = p @ k @ q"
    proof cases
      case 1
      then obtain q where "c # cs = k @ q" by (auto simp: startsWith_iff)
      then have "c # cs = [] @ k @ q" by simp
      then show ?thesis by blast
    next
      case 2
      then obtain p q where "cs = p @ k @ q" using Cons.IH by blast
      then have "c # cs = (c # p) @ k @ q" by simp
      then show ?thesis by blast
    qed
  next
    assume "\<exists>p q. c # cs = p @ k @ q"
    then obtain p q where pq: "c # cs = p @ k @ q" by blast
    show "includes_str (c # cs) k"
    proof (cases p)
      case Nil
      then have "startsWith (c # cs) k" using pq by (auto simp: startsWith_iff)
      then show ?thesis by simp
    next
      case (Cons a p')
      then have "cs = p' @ k @ q" using pq by simp
      then have "includes_str cs k" using Cons.IH by blast
      then show ?thesis by simp
    qed
  qed
qed

lemma includes_str_part:
  assumes "includes_str s (u @ k @ v)"
  shows "includes_str s k"
proof -
  from assms obtain p q where "s = p @ (u @ k @ v) @ q" by (auto simp: includes_str_iff)
  then have "s = (p @ u) @ k @ (v @ q)" by simp
  then show ?thesis unfolding includes_str_iff by blast
qed

lemma inconsistencies_value: "inconsistencies = [''stars'', ''mountain'', ''fire'']"
  by (simp add: inconsistencies_def andAlso_def)

lemma hasLogicalInconsistencies_iff:
  "hasLogicalInconsistencies d \<longleftrightarrow>
     (occursIn ''s'' d \<and> occursIn ''t'' d) \<or>
     (occursIn ''m'' d \<and> occursIn ''o'' d) \<or>
     (occursIn ''f'' d \<and> occursIn ''i'' d)"
  unfolding hasLogicalInconsistencies_def inconsistencies_value occursIn_def
  by (simp del: includes_str.simps)

lemma second_term_triggers:
  "occursIn ''stars'' d \<or> occursIn ''mountain'' d \<or> occursIn ''fire'' d
     \<Longrightarrow> hasLogicalInconsistencies d"
proof -
  have s: "occursIn ''stars'' d \<Longrightarrow> occursIn ''s'' d \<and> occursIn ''t'' d"
    unfolding occursIn_def
    using includes_str_part[of "toLowerCase d" "[]" "''s''" "''tars''"]
      includes_str_part[of "toLowerCase d" "''s''" "''t''" "''ars''"] by simp
  have m: "occursIn ''mountain'' d \<Longrightarrow> occursIn ''m'' d \<and> occursIn ''o'' d"
    unfolding occursIn_def
    using includes_str_part[of "toLowerCase d" "[]" "''m''" "''ountain''"]
      includes_str_part[of "toLowerCase d" "''m''" "''o''" "''untain''"] by simp
  have f: "occursIn ''fire'' d \<Longrightarrow> occursIn ''f'' d \<and> occursIn ''i'' d"
    unfolding occursIn_def
    using includes_str_part[of "toLowerCase d" "[]" "''f''" "''ire''"]
      includes_str_part[of "toLowerCase d" "''f''" "''i''" "''re''"] by simp
  assume "occursIn ''stars'' d \<or> occursIn ''mountain'' d \<or> occursIn ''fire'' d"
  then show ?thesis unfolding hasLogicalInconsistencies_iff using s m f by blast
qed

text \<open>
  Claim C9 (the logical-inconsistency detector).  The source lists three pairs of
  contradictory terms, but writes each pair as \<open>'x' && 'y'\<close>, which evaluates to the
  second term alone, and then destructures that term with the array pattern \<open>[a, b]\<close>,
  which takes its first two letters.  The description \<open>A quiet room\<close> contains none of
  the six listed terms, yet the detector reports an inconsistency, because the letters
  m and o occur.  It likewise fires on \<open>st\<close> and on \<open>mo\<close>, which share no non-empty
  substring, and not on the empty description; so no pair of terms decides the verdict,
  whether terms are looked up in the lower-cased description or in the description as
  given.
\<close>

theorem C9_detector_flags_letter_pairs:
  "hasLogicalInconsistencies ''A quiet room'' \<and>
   \<not> occursIn ''day'' ''A quiet room'' \<and> \<not> occursIn ''stars'' ''A quiet room'' \<and>
   \<not> occursIn ''indoor'' ''A quiet room'' \<and> \<not> occursIn ''mountain'' ''A quiet room'' \<and>
   \<not> occursIn ''underwater'' ''A quiet room'' \<and> \<not> occursIn ''fire'' ''A quiet room'' \<and>
   hasLogicalInconsistencies ''st'' \<and> hasLogicalInconsistencies ''mo'' \<and>
   \<not> hasLogicalInconsistencies '''' \<and>
   \<not> (\<exists>a b. \<forall>d. hasLogicalInconsistencies d \<longleftrightarrow> occursIn a d \<and> occursIn b d) \<and>
   \<not> (\<exists>a b. \<forall>d. hasLogicalInconsistencies d \<longleftrightarrow> includes_str d a \<and> includes_str d b)"
proof -
  have room: "hasLogicalInconsistencies ''A quiet room''" by code_simp
  have terms: "\<not> occursIn ''day'' ''A quiet room''" "\<not> occursIn ''stars'' ''A quiet room''"
    "\<not> occursIn ''indoor'' ''A quiet room''" "\<not> occursIn ''mountain'' ''A quiet room''"
    "\<not> occursIn ''underwater'' ''A quiet room''" "\<not> occursIn ''fire'' ''A quiet room''"
    by code_simp+
  have st: "hasLogicalInconsistencies ''st''" by code_simp
  have mo: "hasLogicalInconsistencies ''mo''" by code_simp
  have em: "\<not> hasLogicalInconsistencies ''''" by code_simp
  have low: "toLowerCase ''st'' = ''st''" "toLowerCase ''mo'' = ''mo''" "toLowerCase '''' = ''''"
    by code_simp+
  have common: "a = []" if "includes_str ''st'' a" "includes_str ''mo'' a" for a
  proof (rule ccontr)
    assume "a \<noteq> []"
    then have h: "hd a \<in> set a" by simp
    from that(1) obtain p q where "''st'' = p @ a @ q" unfolding includes_str_iff by blast
    then have "set a \<subseteq> set ''st''" by (metis set_append Un_upper1 Un_upper2 subset_trans)
    moreover from that(2) obtain p' q' where "''mo'' = p' @ a @ q'" unfolding includes_str_iff by blast
    then have "set a \<subseteq> set ''mo''" by (metis set_append Un_upper1 Un_upper2 subset_trans)
    ultimately have "hd a \<in> set ''st'' \<inter> set ''mo''" using h by blast
    then show False by simp
  qed
  have one: False if "\<forall>d. hasLogicalInconsistencies d \<longleftrightarrow> includes_str (f d) a \<and> includes_str (f d) b"
    and f: "f ''st'' = ''st''" "f ''mo'' = ''mo''" "f '''' = ''''" for a b and f :: "string \<Rightarrow> string"
  proof -
    from that(1) st f have "includes_str ''st'' a" "includes_str ''st'' b" by auto
    moreover from that(1) mo f have "includes_str ''mo'' a" "includes_str ''mo'' b" by auto
    ultimately have "a = []" "b = []" using common by blast+
    then have "includes_str (f '''') a \<and> includes_str (f '''') b" using f by simp
    with that(1) em show False by blast
  qed
  have "\<not> (\<exists>a b. \<forall>d. hasLogicalInconsistencies d \<longleftrightarrow> occursIn a d \<and> occursIn b d)"
    unfolding occursIn_def using one[of toLowerCase] low by blast
  moreover have "\<not> (\<exists>a b. \<forall>d. hasLogicalInconsistencies d \<longleftrightarrow> includes_str d a \<and> includes_str d b)"
    using one[of "\<lambda>d. d"] by blast
  ultimately show ?thesis using room terms st mo em by blast
qed


end
